theory Spec2Isabelle
  imports Complex_Main "HOL-Library.Multiset" "HOL-Library.Word"
begin

section \<open>Achievement aggregation: the data model\<close>

text \<open>
  The records follow the interfaces of \<open>src/types/steam.ts\<close> and the response interfaces at
  the top of \<open>get-achievements/route.ts\<close>. A JavaScript number is a \<open>rat\<close>: every finite
  double is a rational, and the handler only compares numbers, tests \<open>achieved === 1\<close> and
  takes the sign of a difference of two percentages, which is the sign of the exact
  difference. An optional field (\<open>f?: T\<close>) is an \<open>option\<close>. Field names used by two
  interfaces carry a prefix in all but one of them (\<open>p_\<close> for \<open>PlayerAchievement\<close>, \<open>g_\<close> for
  \<open>GlobalAchievementPercentage\<close>, and so on).
\<close>

type_synonym number = rat

text \<open>
  The \<open>percent\<close> of a global entry is declared a \<open>number\<close>, but the handler asks whether it
  is there (\<open>?? 100\<close>) and the comparator of the sort asks for its \<open>typeof\<close>, so the field
  is kept as JSON gives it: a number, a string, or \<open>Nullish\<close> for \<open>null\<close> and for an entry
  without the field. The other JSON values (booleans, arrays, objects) are left out; the
  handler treats them as it treats a string.
\<close>

datatype jsvalue = Num number | Str string | Nullish

record PlayerAchievement =
  apiname :: string
  p_achieved :: number
  p_unlocktime :: number

record AchievementSchema =
  name :: string
  defaultvalue :: number
  displayName :: string
  hidden :: number
  description :: string
  icon :: string
  icongray :: string

record GlobalAchievementPercentage =
  g_name :: string
  g_percent :: jsvalue

text \<open>\<open>interface CombinedAchievement extends AchievementSchema\<close>.\<close>

record CombinedAchievement = AchievementSchema +
  achieved :: bool
  unlocktime :: number
  percent :: jsvalue

text \<open>
  \<open>PlayerStatsResponse\<close>, \<open>SchemaResponse\<close>, \<open>GlobalPercentagesResponse\<close>. The handler tests
  the two \<open>achievements\<close> lists of the schema and of the percentages for presence, so they
  are optional here, as \<open>playerstats.achievements\<close> is in the source.
\<close>

record playerstats_t =
  steamID :: "string option"
  ps_gameName :: "string option"
  ps_achievements :: "PlayerAchievement list option"
  success :: bool
  message :: "string option"

record PlayerStatsResponse =
  playerstats :: "playerstats_t option"

record availableGameStats_t =
  gs_achievements :: "AchievementSchema list option"

record game_t =
  gameName :: string
  gameVersion :: string
  availableGameStats :: "availableGameStats_t option"

record SchemaResponse =
  game :: "game_t option"

record achievementpercentages_t =
  ap_achievements :: "GlobalAchievementPercentage list option"

record GlobalPercentagesResponse =
  achievementpercentages :: "achievementpercentages_t option"

section \<open>The world of one request: Redis, the clock, the Steam Web API\<close>

text \<open>
  A text stored in Redis is kept as what \<open>JSON.parse\<close> makes of it: \<open>Serialized p\<close> is the
  text \<open>JSON.stringify\<close> wrote for the payload \<open>p\<close>; \<open>Unparsable\<close> stands for every text the
  handler cannot use (the empty string, a text \<open>JSON.parse\<close> rejects, a text that parses to
  a falsy value): each of them leaves the data variable \<open>undefined\<close>.
\<close>

datatype payload =
    PlayerPayload PlayerStatsResponse
  | SchemaPayload SchemaResponse
  | GlobalPayload GlobalPercentagesResponse

datatype stored = Unparsable | Serialized payload

text \<open>
  The body of an upstream response, as \<open>JSON.parse\<close> and \<open>response.json()\<close> read it: a text
  that is not JSON; a JSON text whose value is falsy (\<open>null\<close>, \<open>false\<close>, \<open>0\<close>, the empty
  string); or any other JSON value, read at the response type the handler declares for
  the endpoint (a value without a field the handler looks for has \<open>None\<close> there). What
  \<open>fetch\<close> gives is a rejection (transport error) or a response with its status.
\<close>

datatype 'a body_text = NotJson | JsonFalsy | Json 'a

datatype 'a fetch_result = NetworkError | HttpResponse nat "'a body_text"

datatype upstream_call = PlayerCall string | SchemaCall string | GlobalCall string

text \<open>
  \<open>redisClient\<close> is the module variable of \<open>lib/redis.ts\<close> (\<open>None\<close> for \<open>null\<close>, otherwise its
  \<open>isOpen\<close> flag); \<open>connectOk\<close> says whether \<open>client.connect()\<close> resolves; \<open>getThrows\<close> and
  \<open>setThrows\<close> say for which keys the client's \<open>get\<close> and \<open>set\<close> reject; \<open>store\<close> is the
  server's content, each text with the time it expires at; \<open>now\<close> is the clock in seconds.
  The three \<open>fetch\<close> fields answer a URL of the respective endpoint, and \<open>calls\<close> records
  the upstream requests issued so far.
\<close>

record world =
  redisClient :: "bool option"
  connectOk :: bool
  getThrows :: "string \<Rightarrow> bool"
  setThrows :: "string \<Rightarrow> bool"
  store :: "string \<rightharpoonup> (stored \<times> nat)"
  now :: nat
  STEAM_API_KEY :: "string option"
  fetchPlayer :: "string \<Rightarrow> PlayerStatsResponse fetch_result"
  fetchSchema :: "string \<Rightarrow> SchemaResponse fetch_result"
  fetchGlobal :: "string \<Rightarrow> GlobalPercentagesResponse fetch_result"
  calls :: "upstream_call list"

text \<open>
  \<open>getRedisClient\<close> for one caller at a time (then \<open>connectPromise\<close> is \<open>null\<close> whenever the
  function is entered): an open client is returned as it is; otherwise a client is
  created and connected, stored on success, and \<open>redisClient\<close> set to \<open>null\<close> on failure,
  where the promise rejects (\<open>False\<close>).
\<close>

definition getRedisClient :: "world \<Rightarrow> bool \<times> world" where
  "getRedisClient w =
     (if redisClient w = Some True then (True, w)
      else if connectOk w then (True, w\<lparr>redisClient := Some True\<rparr>)
      else (False, w\<lparr>redisClient := None\<rparr>))"

text \<open>
  Modelled from the spec: the cache store, an external key/value service the handler
  reaches through the \<open>redis\<close> client library (neither is under \<open>src/\<close>). Its two commands
  are \<open>GET key\<close>, which gives the text or \<open>null\<close>, and \<open>SET key value EX seconds\<close>; an
  entry expires after its time to live, and an absent or expired key is a miss. Either
  command can fail, which the client reports by rejecting.
\<close>

datatype get_reply = GetThrows | GetReply "stored option"

definition redis_get :: "world \<Rightarrow> string \<Rightarrow> get_reply" where
  "redis_get w key =
     (if getThrows w key then GetThrows
      else GetReply (case store w key of
                       None \<Rightarrow> None
                     | Some (v, expiry) \<Rightarrow> if now w < expiry then Some v else None))"

definition redis_set :: "world \<Rightarrow> string \<Rightarrow> stored \<Rightarrow> nat \<Rightarrow> bool \<times> world" where
  "redis_set w key v ex =
     (if setThrows w key then (False, w)
      else (True, w\<lparr>store := (store w)(key \<mapsto> (v, now w + ex))\<rparr>))"

section \<open>The handler \<open>GET\<close> of \<open>get-achievements/route.ts\<close>\<close>

datatype body = Message string | AchievementsBody string string "CombinedAchievement list"

record response =
  status :: nat
  body :: body

text \<open>
  A section of the handler ends by returning a response, by throwing (to the outer
  \<open>catch\<close>) or by going on with a value.
\<close>

datatype 'a outcome = Return response | Throw | Continue 'a

record request =
  cookie :: "string option"
  appIdParam :: "string option"

definition CACHE_TTL_SECONDS :: nat where
  "CACHE_TTL_SECONDS = 3600"

text \<open>\<open>!s\<close> for \<open>s: string | undefined | null\<close>.\<close>

definition falsy :: "string option \<Rightarrow> bool" where
  "falsy s = (case s of None \<Rightarrow> True | Some v \<Rightarrow> v = [])"

text \<open>\<open>response.ok\<close>.\<close>

definition ok :: "nat \<Rightarrow> bool" where
  "ok st = (200 \<le> st \<and> st \<le> 299)"

text \<open>A status code inside a template literal.\<close>

fun toString :: "nat \<Rightarrow> string" where
  "toString n = (if n < 10 then [''0123456789'' ! n]
                 else toString (n div 10) @ [''0123456789'' ! (n mod 10)])"

declare toString.simps [simp del]

definition json :: "nat \<Rightarrow> body \<Rightarrow> response" where
  "json st b = \<lparr>status = st, body = b\<rparr>"

text \<open>
  \<open>return NextResponse.json(body, { status })\<close> with the status of an upstream response:
  the constructor of the response throws for a status outside 200..599 and for a status
  that allows no body (204, 205, 304; 101 and 103 are below 200), and the exception goes
  to the outer \<open>catch\<close>.
\<close>

definition passOn :: "nat \<Rightarrow> body \<Rightarrow> 'a outcome" where
  "passOn st b =
     (if st < 200 \<or> 599 < st \<or> st = 204 \<or> st = 205 \<or> st = 304 then Throw
      else Return (json st b))"

definition playerCacheKey :: "string \<Rightarrow> string \<Rightarrow> string" where
  "playerCacheKey steamId appId = ''playerAch:'' @ steamId @ '':'' @ appId"

definition schemaCacheKey :: "string \<Rightarrow> string" where
  "schemaCacheKey appId = ''schema:'' @ appId"

definition globalCacheKey :: "string \<Rightarrow> string" where
  "globalCacheKey appId = ''globalAch:'' @ appId"

definition playerAchievementsUrl :: "string \<Rightarrow> string \<Rightarrow> string \<Rightarrow> string" where
  "playerAchievementsUrl steamApiKey steamId appId =
     ''https://api.steampowered.com/ISteamUserStats/GetPlayerAchievements/v1/?key=''
       @ steamApiKey @ ''&steamid='' @ steamId @ ''&appid='' @ appId @ ''&l=english''"

definition schemaUrl :: "string \<Rightarrow> string \<Rightarrow> string" where
  "schemaUrl steamApiKey appId =
     ''https://api.steampowered.com/ISteamUserStats/GetSchemaForGame/v2/?key=''
       @ steamApiKey @ ''&appid='' @ appId @ ''&l=english''"

definition globalPercentagesUrl :: "string \<Rightarrow> string" where
  "globalPercentagesUrl appId =
     ''https://api.steampowered.com/ISteamUserStats/GetGlobalAchievementPercentagesForApp/v2/?gameid=''
       @ appId @ ''&format=json''"

text \<open>
  What \<open>JSON.parse\<close> of a cached text is, read at one of the three response types: the
  three payloads have no top-level field in common, so a payload of another kind is an
  object without the field the handler looks for.
\<close>

definition asPlayerStats :: "payload \<Rightarrow> PlayerStatsResponse" where
  "asPlayerStats p = (case p of PlayerPayload d \<Rightarrow> d | _ \<Rightarrow> \<lparr>playerstats = None\<rparr>)"

definition asSchema :: "payload \<Rightarrow> SchemaResponse" where
  "asSchema p = (case p of SchemaPayload d \<Rightarrow> d | _ \<Rightarrow> \<lparr>game = None\<rparr>)"

definition asGlobalPercentages :: "payload \<Rightarrow> GlobalPercentagesResponse" where
  "asGlobalPercentages p =
     (case p of GlobalPayload d \<Rightarrow> d | _ \<Rightarrow> \<lparr>achievementpercentages = None\<rparr>)"

text \<open>
  The cache read that opens each of the three sections (the same statements three times
  in the source, with another key): \<open>if (redis) { try { get; if (cached) parse } catch
  { log } }\<close>. The result is the data variable afterwards, \<open>None\<close> for \<open>undefined\<close>.
\<close>

definition cachedData :: "bool \<Rightarrow> world \<Rightarrow> string \<Rightarrow> payload option" where
  "cachedData redis w key =
     (if redis then
        (case redis_get w key of
           GetThrows \<Rightarrow> None
         | GetReply None \<Rightarrow> None
         | GetReply (Some Unparsable) \<Rightarrow> None
         | GetReply (Some (Serialized p)) \<Rightarrow> Some p)
      else None)"

text \<open>
  The cache write, \<open>try { await redis.set(key, JSON.stringify(data), {EX:
  CACHE_TTL_SECONDS}) } catch { log }\<close>, under the guard \<open>redis && valid\<close> of each section.
\<close>

definition cacheResult :: "bool \<Rightarrow> bool \<Rightarrow> world \<Rightarrow> string \<Rightarrow> stored \<Rightarrow> world" where
  "cacheResult redis valid w key v =
     (if redis \<and> valid then snd (redis_set w key v CACHE_TTL_SECONDS) else w)"

text \<open>\<open>data?.playerstats?.success\<close> and \<open>data?.game?.availableGameStats?.achievements\<close>.\<close>

definition playerSuccess :: "PlayerStatsResponse \<Rightarrow> bool" where
  "playerSuccess d = (case playerstats d of None \<Rightarrow> False | Some ps \<Rightarrow> success ps)"

definition schemaAchievementsOf :: "SchemaResponse \<Rightarrow> AchievementSchema list option" where
  "schemaAchievementsOf d =
     (case game d of
        None \<Rightarrow> None
      | Some g \<Rightarrow> (case availableGameStats g of None \<Rightarrow> None | Some st \<Rightarrow> gs_achievements st))"

text \<open>
  The fetch of the player's achievements, entered when the cache gave nothing. A falsy
  body of an \<open>ok\<close> response has no \<open>playerstats\<close>: it is not cached and fails the validation
  that follows.
\<close>

definition fetchPlayerAchievements ::
  "bool \<Rightarrow> string \<Rightarrow> string \<Rightarrow> string \<Rightarrow> world \<Rightarrow> PlayerStatsResponse outcome \<times> world" where
  "fetchPlayerAchievements redis steamApiKey steamId appId w =
     (let url = playerAchievementsUrl steamApiKey steamId appId;
          w' = w\<lparr>calls := calls w @ [PlayerCall url]\<rparr>
      in case fetchPlayer w url of
           NetworkError \<Rightarrow> (Throw, w')
         | HttpResponse st text \<Rightarrow>
             if \<not> ok st then
               (let failure = passOn st (Message
                      (''Failed to fetch player achievements. Status: '' @ toString st))
                in case text of
                     NotJson \<Rightarrow> (failure, w')
                   | JsonFalsy \<Rightarrow> (failure, w')
                   | Json errorJson \<Rightarrow>
                       (case playerstats errorJson of
                          None \<Rightarrow> (failure, w')
                        | Some ps \<Rightarrow>
                            (case message ps of
                               None \<Rightarrow> (failure, w')
                             | Some m \<Rightarrow>
                                 if \<not> success ps \<and> m \<noteq> []
                                 then (Return (json 404 (Message m)), w')
                                 else (failure, w'))))
             else
               (case text of
                  NotJson \<Rightarrow> (Throw, w')
                | JsonFalsy \<Rightarrow> (Continue \<lparr>playerstats = None\<rparr>, w')
                | Json d \<Rightarrow>
                    (Continue d,
                     cacheResult redis (playerSuccess d) w' (playerCacheKey steamId appId)
                       (Serialized (PlayerPayload d)))))"

definition resolvePlayer ::
  "bool \<Rightarrow> string \<Rightarrow> string \<Rightarrow> string \<Rightarrow> world \<Rightarrow> PlayerStatsResponse outcome \<times> world" where
  "resolvePlayer redis steamApiKey steamId appId w =
     (case cachedData redis w (playerCacheKey steamId appId) of
        Some p \<Rightarrow> (Continue (asPlayerStats p), w)
      | None \<Rightarrow> fetchPlayerAchievements redis steamApiKey steamId appId w)"

text \<open>The validation of the player data: a 404 with the upstream's message or a default.\<close>

definition validatePlayer :: "PlayerStatsResponse \<Rightarrow> playerstats_t outcome" where
  "validatePlayer d =
     (let fallback = ''Could not retrieve achievements (profile private or no stats for this game?).''
      in case playerstats d of
           None \<Rightarrow> Return (json 404 (Message fallback))
         | Some ps \<Rightarrow>
             if success ps then Continue ps
             else Return (json 404 (Message
                    (case message ps of
                       None \<Rightarrow> fallback
                     | Some m \<Rightarrow> if m \<noteq> [] then m else fallback))))"

text \<open>The fetch of the game schema.\<close>

definition fetchGameSchema ::
  "bool \<Rightarrow> string \<Rightarrow> string \<Rightarrow> world \<Rightarrow> SchemaResponse outcome \<times> world" where
  "fetchGameSchema redis steamApiKey appId w =
     (let url = schemaUrl steamApiKey appId;
          w' = w\<lparr>calls := calls w @ [SchemaCall url]\<rparr>
      in case fetchSchema w url of
           NetworkError \<Rightarrow> (Throw, w')
         | HttpResponse st text \<Rightarrow>
             if \<not> ok st then
               (passOn st (Message
                  (''Failed to fetch game schema. Status: '' @ toString st)), w')
             else
               (case text of
                  NotJson \<Rightarrow> (Throw, w')
                | JsonFalsy \<Rightarrow> (Continue \<lparr>game = None\<rparr>, w')
                | Json d \<Rightarrow>
                    (Continue d,
                     cacheResult redis (schemaAchievementsOf d \<noteq> None) w'
                       (schemaCacheKey appId) (Serialized (SchemaPayload d)))))"

definition resolveSchema ::
  "bool \<Rightarrow> string \<Rightarrow> string \<Rightarrow> world \<Rightarrow> SchemaResponse outcome \<times> world" where
  "resolveSchema redis steamApiKey appId w =
     (case cachedData redis w (schemaCacheKey appId) of
        Some p \<Rightarrow> (Continue (asSchema p), w)
      | None \<Rightarrow> fetchGameSchema redis steamApiKey appId w)"

text \<open>
  The fetch of the global percentages: a response that is not \<open>ok\<close> gives the default
  structure and is not cached; an \<open>ok\<close> response is parsed and cached whatever it holds.
  A falsy body is written to the cache as well (\<open>JSON.stringify(null)\<close> is the text
  \<open>null\<close>), as a text the next request cannot use.
\<close>

definition fetchGlobalPercentages ::
  "bool \<Rightarrow> string \<Rightarrow> world \<Rightarrow> GlobalPercentagesResponse outcome \<times> world" where
  "fetchGlobalPercentages redis appId w =
     (let url = globalPercentagesUrl appId;
          w' = w\<lparr>calls := calls w @ [GlobalCall url]\<rparr>
      in case fetchGlobal w url of
           NetworkError \<Rightarrow> (Throw, w')
         | HttpResponse st text \<Rightarrow>
             if \<not> ok st then
               (Continue \<lparr>achievementpercentages = Some \<lparr>ap_achievements = Some []\<rparr>\<rparr>, w')
             else
               (case text of
                  NotJson \<Rightarrow> (Throw, w')
                | JsonFalsy \<Rightarrow>
                    (Continue \<lparr>achievementpercentages = None\<rparr>,
                     cacheResult redis True w' (globalCacheKey appId) Unparsable)
                | Json d \<Rightarrow>
                    (Continue d,
                     cacheResult redis True w' (globalCacheKey appId)
                       (Serialized (GlobalPayload d)))))"

definition resolveGlobal ::
  "bool \<Rightarrow> string \<Rightarrow> world \<Rightarrow> GlobalPercentagesResponse outcome \<times> world" where
  "resolveGlobal redis appId w =
     (case cachedData redis w (globalCacheKey appId) of
        Some p \<Rightarrow> (Continue (asGlobalPercentages p), w)
      | None \<Rightarrow> fetchGlobalPercentages redis appId w)"

text \<open>
  \<open>playerstats.achievements || []\<close> and
  \<open>data?.achievementpercentages?.achievements || []\<close>.
\<close>

definition playerAchievementsOf :: "playerstats_t \<Rightarrow> PlayerAchievement list" where
  "playerAchievementsOf ps = (case ps_achievements ps of None \<Rightarrow> [] | Some l \<Rightarrow> l)"

definition globalAchievementsOf :: "GlobalPercentagesResponse \<Rightarrow> GlobalAchievementPercentage list" where
  "globalAchievementsOf d =
     (case achievementpercentages d of
        None \<Rightarrow> []
      | Some ap \<Rightarrow> (case ap_achievements ap of None \<Rightarrow> [] | Some l \<Rightarrow> l))"

text \<open>
  \<open>new Map(entries)\<close> sets the entries one after the other, so a later entry replaces an
  earlier one with the same key.
\<close>

definition newMap :: "('k \<times> 'v) list \<Rightarrow> ('k \<rightharpoonup> 'v)" where
  "newMap entries = fold (\<lambda>(k, v) m. m(k \<mapsto> v)) entries Map.empty"

definition playerAchievementsMap :: "PlayerAchievement list \<Rightarrow> (string \<rightharpoonup> PlayerAchievement)" where
  "playerAchievementsMap playerAchievements = newMap (map (\<lambda>a. (apiname a, a)) playerAchievements)"

definition globalPercentagesMap :: "GlobalAchievementPercentage list \<Rightarrow> (string \<rightharpoonup> jsvalue)" where
  "globalPercentagesMap globalAchievements =
     newMap (map (\<lambda>a. (g_name a, g_percent a)) globalAchievements)"

text \<open>The callback of \<open>schemaAchievements.map\<close>: the schema entry's fields and three more.\<close>

definition combine ::
  "(string \<rightharpoonup> PlayerAchievement) \<Rightarrow> (string \<rightharpoonup> jsvalue) \<Rightarrow> AchievementSchema \<Rightarrow> CombinedAchievement" where
  "combine pmap gmap schemaAch =
     (let playerAch = pmap (name schemaAch);
          globalPercent = (case gmap (name schemaAch) of
                             None \<Rightarrow> Num 100
                           | Some p \<Rightarrow> if p = Nullish then Num 100 else p)
      in \<lparr>name = name schemaAch, defaultvalue = defaultvalue schemaAch,
          displayName = displayName schemaAch, hidden = hidden schemaAch,
          description = description schemaAch, icon = icon schemaAch,
          icongray = icongray schemaAch,
          achieved = (case playerAch of None \<Rightarrow> False | Some p \<Rightarrow> p_achieved p = 1),
          unlocktime = (case playerAch of None \<Rightarrow> 0 | Some p \<Rightarrow> p_unlocktime p),
          percent = globalPercent\<rparr>)"

definition combinedAchievements ::
  "AchievementSchema list \<Rightarrow> PlayerAchievement list \<Rightarrow> GlobalAchievementPercentage list
     \<Rightarrow> CombinedAchievement list" where
  "combinedAchievements schemaAchievements playerAchievements globalAchievements =
     map (combine (playerAchievementsMap playerAchievements)
                  (globalPercentagesMap globalAchievements)) schemaAchievements"

text \<open>
  \<open>typeof x.percent === 'number' ? x.percent : 100\<close>, the percentage as the comparator
  reads it.
\<close>

definition comparedPercent :: "CombinedAchievement \<Rightarrow> number" where
  "comparedPercent x = (case percent x of Num p \<Rightarrow> p | _ \<Rightarrow> 100)"

text \<open>The comparator given to \<open>sort\<close>.\<close>

definition compareAchievements :: "CombinedAchievement \<Rightarrow> CombinedAchievement \<Rightarrow> number" where
  "compareAchievements a b =
     (if achieved a \<and> \<not> achieved b then - 1
      else if \<not> achieved a \<and> achieved b then 1
      else (let percentA = comparedPercent a; percentB = comparedPercent b
            in percentA - percentB))"

text \<open>
  \<open>Array.prototype.sort(comparefn)\<close>: ECMAScript requires a stable sort, and for a
  comparator that is a consistent ordering the result does not depend on the engine's
  algorithm. It is written here as the stable insertion sort: an element goes in front
  of the first later element it does not compare greater than.
\<close>

fun insert_by :: "('a \<Rightarrow> 'a \<Rightarrow> number) \<Rightarrow> 'a \<Rightarrow> 'a list \<Rightarrow> 'a list" where
  "insert_by comparefn x [] = [x]"
| "insert_by comparefn x (y # ys) =
     (if comparefn x y \<le> 0 then x # y # ys else y # insert_by comparefn x ys)"

definition array_sort :: "('a \<Rightarrow> 'a \<Rightarrow> number) \<Rightarrow> 'a list \<Rightarrow> 'a list" where
  "array_sort comparefn xs = foldr (insert_by comparefn) xs []"

text \<open>
  The order the comparator decides: \<open>a\<close> may stand before \<open>b\<close> when \<open>a\<close> is achieved and \<open>b\<close>
  is not, or when both have the same flag and \<open>a\<close>'s percentage, as the comparator reads
  it, is not the greater one.
\<close>

definition precedes :: "CombinedAchievement \<Rightarrow> CombinedAchievement \<Rightarrow> bool" where
  "precedes a b \<longleftrightarrow>
     (achieved a \<and> \<not> achieved b) \<or>
     (achieved a = achieved b \<and> comparedPercent a \<le> comparedPercent b)"

text \<open>
  The body of the outer \<open>try\<close>, in two parts. The first part is the three sections that
  fetch and validate: player achievements, game schema, global percentages. It ends with
  a response returned early, with an exception, or with the data the rest works on.
\<close>

record datasets =
  d_player :: playerstats_t
  d_game :: game_t
  d_schema :: "AchievementSchema list"
  d_global :: GlobalPercentagesResponse

definition resolveData ::
  "bool \<Rightarrow> string \<Rightarrow> string \<Rightarrow> string \<Rightarrow> world \<Rightarrow> datasets outcome \<times> world" where
  "resolveData redis steamApiKey steamId appId w =
     (case resolvePlayer redis steamApiKey steamId appId w of
        (Throw, w2) \<Rightarrow> (Throw, w2)
      | (Return r, w2) \<Rightarrow> (Return r, w2)
      | (Continue playerAchievementsData, w2) \<Rightarrow>
          (case validatePlayer playerAchievementsData of
             Throw \<Rightarrow> (Throw, w2)
           | Return r \<Rightarrow> (Return r, w2)
           | Continue ps \<Rightarrow>
               (case resolveSchema redis steamApiKey appId w2 of
                  (Throw, w3) \<Rightarrow> (Throw, w3)
                | (Return r, w3) \<Rightarrow> (Return r, w3)
                | (Continue schemaData, w3) \<Rightarrow>
                    (case game schemaData of
                       None \<Rightarrow>
                         (Return (json 500 (Message ''Failed to parse game schema data.'')), w3)
                     | Some g \<Rightarrow>
                         (case schemaAchievementsOf schemaData of
                            None \<Rightarrow>
                              (Return (json 500 (Message ''Failed to parse game schema data.'')),
                               w3)
                          | Some schemaAchievements \<Rightarrow>
                              (case resolveGlobal redis appId w3 of
                                 (Throw, w4) \<Rightarrow> (Throw, w4)
                               | (Return r, w4) \<Rightarrow> (Return r, w4)
                               | (Continue globalPercentagesData, w4) \<Rightarrow>
                                   (Continue \<lparr>d_player = ps, d_game = g,
                                              d_schema = schemaAchievements,
                                              d_global = globalPercentagesData\<rparr>, w4)))))))"

text \<open>
  The second part combines, sorts and answers with status 200. \<open>None\<close> stands for an
  exception that reaches the outer \<open>catch\<close>.
\<close>

definition tryBlock ::
  "bool \<Rightarrow> string \<Rightarrow> string \<Rightarrow> string \<Rightarrow> world \<Rightarrow> response option \<times> world" where
  "tryBlock redis steamApiKey steamId appId w =
     (case resolveData redis steamApiKey steamId appId w of
        (Throw, w') \<Rightarrow> (None, w')
      | (Return r, w') \<Rightarrow> (Some r, w')
      | (Continue d, w') \<Rightarrow>
          (Some (json 200 (AchievementsBody (gameName (d_game d)) steamId
             (array_sort compareAchievements
                (combinedAchievements (d_schema d)
                   (playerAchievementsOf (d_player d))
                   (globalAchievementsOf (d_global d)))))),
           w'))"

text \<open>
  The handler: the three checks of the request and of the configuration, the Redis
  client (\<open>undefined\<close> when the connection fails), the \<open>try\<close> block, and the outer \<open>catch\<close>.
\<close>

definition GET :: "request \<Rightarrow> world \<Rightarrow> response \<times> world" where
  "GET req w =
     (case cookie req of
        None \<Rightarrow> (json 400 (Message ''Missing steamId query parameter.''), w)
      | Some steamId \<Rightarrow>
          if steamId = [] then (json 400 (Message ''Missing steamId query parameter.''), w)
          else
            (case appIdParam req of
               None \<Rightarrow> (json 400 (Message ''Missing appId query parameter.''), w)
             | Some appId \<Rightarrow>
                 if appId = [] then (json 400 (Message ''Missing appId query parameter.''), w)
                 else
                   (case STEAM_API_KEY w of
                      None \<Rightarrow>
                        (json 500 (Message ''Server configuration error: Missing Steam API Key.''), w)
                    | Some steamApiKey \<Rightarrow>
                        if steamApiKey = [] then
                          (json 500 (Message ''Server configuration error: Missing Steam API Key.''), w)
                        else
                          (let (redis, w1) = getRedisClient w
                           in case tryBlock redis steamApiKey steamId appId w1 of
                                (Some r, w') \<Rightarrow> (r, w')
                              | (None, w') \<Rightarrow>
                                  (json 500 (Message ''An internal server error occurred.''), w')))))"

section \<open>Token-id derivation in \<open>handleMint\<close>\<close>

text \<open>
  Step 3 of \<open>handleMint\<close> calls three functions of the viem library, which is not part of
  the repository: \<open>encodePacked\<close>, \<open>keccak256\<close> and \<open>hexToBigInt\<close>. The hash function is a
  parameter of the model (a function from bytes to bytes); the other two are modelled
  below. \<open>appId\<close> is taken as an integer (a \<open>Number(params.appid)\<close> that is not one makes
  \<open>encodePacked\<close> throw as well), and a \<open>string\<close> is the UTF-8 byte sequence of the
  JavaScript string.
\<close>

type_synonym byte = "8 word"

text \<open>
  Modelled from the spec: viem's encoding of a \<open>uint32\<close> inside \<open>encodePacked\<close> (the library
  is not under \<open>src/\<close>). The value as a 32-bit big-endian integer, four bytes; a value
  outside the range of \<open>uint32\<close> is refused with an exception (\<open>None\<close>).
\<close>

definition numberToHex4 :: "int \<Rightarrow> byte list option" where
  "numberToHex4 v =
     (if v < 0 \<or> v > 2 ^ 32 - 1 then None
      else Some [word_of_int (v div 2 ^ 24), word_of_int (v div 2 ^ 16),
                 word_of_int (v div 2 ^ 8), word_of_int v])"

text \<open>
  Modelled from the spec: viem's encoding of a \<open>string\<close> inside \<open>encodePacked\<close>, the name as
  UTF-8 bytes.
\<close>

definition stringToBytes :: "string \<Rightarrow> byte list" where
  "stringToBytes s = map (\<lambda>c. of_nat (of_char c)) s"

text \<open>
  Modelled from the spec: viem's \<open>encodePacked(['uint32', 'string'], [appId, name])\<close>, the
  tight byte-packed concatenation of the two encodings.
\<close>

definition encodePacked :: "int \<Rightarrow> string \<Rightarrow> byte list option" where
  "encodePacked appId achievementApiName =
     (case numberToHex4 appId of
        None \<Rightarrow> None
      | Some b \<Rightarrow> Some (b @ stringToBytes achievementApiName))"

text \<open>
  Modelled from the spec: viem's \<open>hexToBigInt\<close>, the bytes of the hex string interpreted as
  a big-endian unsigned integer.
\<close>

definition hexToBigInt :: "byte list \<Rightarrow> nat" where
  "hexToBigInt bs = foldl (\<lambda>acc b. acc * 256 + unat b) 0 bs"

text \<open>
  The \<open>try\<close> block of step 3: \<open>None\<close> when it throws (the handler then reports
  \<open>Failed to generate token ID.\<close> and stops).
\<close>

definition generateTokenId :: "(byte list \<Rightarrow> byte list) \<Rightarrow> int \<Rightarrow> string \<Rightarrow> nat option" where
  "generateTokenId keccak256 appId achievementApiName =
     (case encodePacked appId achievementApiName of
        None \<Rightarrow> None
      | Some packedData \<Rightarrow> Some (hexToBigInt (keccak256 packedData)))"

text \<open>
  \<open>handleMint\<close>: the prerequisite checks, the chain check, the token id, and the call of
  \<open>writeContract\<close> with its arguments.
\<close>

datatype mint_step =
    AppIdMissing
  | WalletNotConnected
  | WrongNetwork
  | TokenIdFailed
  | WriteContract string nat int string

definition TARGET_CHAIN_ID :: nat where
  "TARGET_CHAIN_ID = 84532"

definition handleMint ::
  "(byte list \<Rightarrow> byte list) \<Rightarrow> int option \<Rightarrow> bool \<Rightarrow> string option \<Rightarrow> nat \<Rightarrow> string \<Rightarrow> mint_step" where
  "handleMint keccak256 appId isConnected accountAddress chainId achievementApiName =
     (case appId of
        None \<Rightarrow> AppIdMissing
      | Some a \<Rightarrow>
          if a = 0 then AppIdMissing
          else if \<not> isConnected \<or> falsy accountAddress then WalletNotConnected
          else if chainId \<noteq> TARGET_CHAIN_ID then WrongNetwork
          else (case generateTokenId keccak256 a achievementApiName of
                  None \<Rightarrow> TokenIdFailed
                | Some tokenId \<Rightarrow>
                    WriteContract (case accountAddress of Some addr \<Rightarrow> addr | None \<Rightarrow> [])
                      tokenId a achievementApiName))"

section \<open>Event reconciliation worker (the polling script)\<close>

text \<open>
  The worker keeps one module variable, \<open>lastProcessedBlock: bigint | null\<close>, and runs
  \<open>pollForEvents\<close> again and again (the \<open>finally\<close> block reschedules it after every
  cycle, whatever happened). A bigint is an unbounded integer, so it is an \<open>int\<close> here.

  What the chain answers in one cycle is the cycle's environment: \<open>getBlockNumber\<close> and
  \<open>getLogs\<close> either reject (\<open>RpcError\<close>) or resolve. A log carries the number of its topics
  and what viem's \<open>decodeEventLog\<close> makes of it: \<open>None\<close> when it throws, the decoded event
  name otherwise.
\<close>

datatype 'a rpc = RpcError | RpcOk 'a

record log =
  topics :: nat
  decoded :: "string option"
  blockNumber :: int

record chain =
  getBlockNumber :: "int rpc"
  getLogs :: "int \<Rightarrow> int \<Rightarrow> log list rpc"

text \<open>What one cycle did, besides updating the watermark.\<close>

record cycle =
  after :: "int option"
  query :: "(int \<times> int) option"
  surfaced :: "log list"
  failed :: bool

definition BLOCKS_PER_POLL :: int where
  "BLOCKS_PER_POLL = 500"

text \<open>
  \<open>processLogs\<close>: every log is handled inside its own \<open>try\<close>; a decoding error is logged and
  the loop goes on, so the function never throws. It returns the logs whose event was
  printed (at least three topics, decoded as \<open>AchievementMinted\<close>).
\<close>

fun processLogs :: "log list \<Rightarrow> log list" where
  "processLogs [] = []"
| "processLogs (l # ls) =
     (if topics l \<ge> 3 then
        (case decoded l of
           None \<Rightarrow> processLogs ls
         | Some eventName \<Rightarrow>
             if eventName = ''AchievementMinted'' then l # processLogs ls else processLogs ls)
      else processLogs ls)"

text \<open>
  \<open>pollForEvents\<close>, one cycle. The statements are in the order of the source: read the head,
  seed the watermark when it is \<open>null\<close>, compute \<open>toBlock\<close>, return early when there is no
  new block, fetch the logs, process them, and only then store \<open>toBlock\<close>. An exception
  anywhere lands in the \<open>catch\<close> block, which changes nothing; assignments made before the
  exception stay.
\<close>

definition pollForEvents :: "int option \<Rightarrow> chain \<Rightarrow> cycle" where
  "pollForEvents lastProcessedBlock c =
     (case getBlockNumber c of
        RpcError \<Rightarrow> \<lparr>after = lastProcessedBlock, query = None, surfaced = [], failed = True\<rparr>
      | RpcOk latestBlock \<Rightarrow>
          let lpb = (case lastProcessedBlock of
                       None \<Rightarrow> (if latestBlock > 100 then latestBlock - 100 else 0)
                     | Some b \<Rightarrow> b);
              toBlock = (if lpb + BLOCKS_PER_POLL > latestBlock then latestBlock
                         else lpb + BLOCKS_PER_POLL)
          in if lpb \<ge> latestBlock
             then \<lparr>after = Some lpb, query = None, surfaced = [], failed = False\<rparr>
             else (case getLogs c (lpb + 1) toBlock of
                     RpcError \<Rightarrow>
                       \<lparr>after = Some lpb, query = Some (lpb + 1, toBlock), surfaced = [],
                        failed = True\<rparr>
                   | RpcOk logs \<Rightarrow>
                       \<lparr>after = Some toBlock, query = Some (lpb + 1, toBlock),
                        surfaced = (if length logs > 0 then processLogs logs else []),
                        failed = False\<rparr>))"

text \<open>
  The polling loop over a finite prefix of cycles: the list of cycle records, each cycle
  starting from the watermark the one before left.
\<close>

fun runCycles :: "int option \<Rightarrow> chain list \<Rightarrow> cycle list" where
  "runCycles w [] = []"
| "runCycles w (c # cs) = (let r = pollForEvents w c in r # runCycles (after r) cs)"

text \<open>The watermarks a run goes through, the starting one first.\<close>

definition watermarks :: "int option \<Rightarrow> chain list \<Rightarrow> int option list" where
  "watermarks w cs = w # map after (runCycles w cs)"

text \<open>
  The order on watermarks: \<open>null\<close> (no watermark yet) is below every block number.
\<close>

fun wm_le :: "int option \<Rightarrow> int option \<Rightarrow> bool" where
  "wm_le None _ = True"
| "wm_le (Some a) None = False"
| "wm_le (Some a) (Some b) = (a \<le> b)"

text \<open>
  The watermark a cycle works with once the head is known: the stored one, or the value
  the cold-start branch assigns.
\<close>

definition seeded :: "int option \<Rightarrow> int \<Rightarrow> int" where
  "seeded w latestBlock =
     (case w of Some b \<Rightarrow> b | None \<Rightarrow> if latestBlock > 100 then latestBlock - 100 else 0)"

section \<open>A scenario\<close>

text \<open>
  The scenario of the spec's testable properties: appId 440, a schema with the
  achievements \<open>TF_PLAY_GAME\<close> and \<open>TF_GET_KILL\<close>, a player who has unlocked the first only,
  global percentages 80 and 40. The world has no Redis (the connection fails) and a
  Steam Web API that answers every request with status 200.
\<close>

definition tf2_schema :: SchemaResponse where
  "tf2_schema =
     \<lparr>game = Some \<lparr>gameName = ''Team Fortress 2'', gameVersion = ''1'',
        availableGameStats = Some \<lparr>gs_achievements = Some
          [\<lparr>name = ''TF_PLAY_GAME'', defaultvalue = 0, displayName = ''Play'', hidden = 0,
            description = ''Play a game'', icon = ''a.jpg'', icongray = ''b.jpg''\<rparr>,
           \<lparr>name = ''TF_GET_KILL'', defaultvalue = 0, displayName = ''Kill'', hidden = 0,
            description = ''Get a kill'', icon = ''c.jpg'', icongray = ''d.jpg''\<rparr>]\<rparr>\<rparr>\<rparr>"

definition tf2_player :: PlayerStatsResponse where
  "tf2_player =
     \<lparr>playerstats = Some \<lparr>steamID = Some ''7656'', ps_gameName = Some ''Team Fortress 2'',
        ps_achievements = Some
          [\<lparr>apiname = ''TF_PLAY_GAME'', p_achieved = 1, p_unlocktime = 1700000000\<rparr>,
           \<lparr>apiname = ''TF_GET_KILL'', p_achieved = 0, p_unlocktime = 0\<rparr>],
        success = True, message = None\<rparr>\<rparr>"

definition tf2_global :: GlobalPercentagesResponse where
  "tf2_global =
     \<lparr>achievementpercentages = Some \<lparr>ap_achievements = Some
        [\<lparr>g_name = ''TF_PLAY_GAME'', g_percent = Num 80\<rparr>,
         \<lparr>g_name = ''TF_GET_KILL'', g_percent = Num 40\<rparr>]\<rparr>\<rparr>"

definition tf2_world :: world where
  "tf2_world =
     \<lparr>redisClient = None, connectOk = False, getThrows = (\<lambda>k. False), setThrows = (\<lambda>k. False),
      store = Map.empty, now = 0, STEAM_API_KEY = Some ''KEY'',
      fetchPlayer = (\<lambda>url. HttpResponse 200 (Json tf2_player)),
      fetchSchema = (\<lambda>url. HttpResponse 200 (Json tf2_schema)),
      fetchGlobal = (\<lambda>url. HttpResponse 200 (Json tf2_global)),
      calls = []\<rparr>"

definition tf2_request :: request where
  "tf2_request = \<lparr>cookie = Some ''7656'', appIdParam = Some ''440''\<rparr>"

text \<open>
  The scenario with a player who has unlocked nothing and a percentage that came as a
  string.
\<close>

definition tf2_newcomer :: PlayerStatsResponse where
  "tf2_newcomer =
     \<lparr>playerstats = Some \<lparr>steamID = Some ''7656'', ps_gameName = Some ''Team Fortress 2'',
        ps_achievements = None, success = True, message = None\<rparr>\<rparr>"

definition tf2_text_percent :: world where
  "tf2_text_percent =
     tf2_world\<lparr>fetchPlayer := (\<lambda>url. HttpResponse 200 (Json tf2_newcomer)),
       fetchGlobal := (\<lambda>url. HttpResponse 200 (Json
         \<lparr>achievementpercentages = Some \<lparr>ap_achievements = Some
            [\<lparr>g_name = ''TF_PLAY_GAME'', g_percent = Str ''5''\<rparr>,
             \<lparr>g_name = ''TF_GET_KILL'', g_percent = Num 70\<rparr>]\<rparr>\<rparr>))\<rparr>"

text \<open>
  What \<open>percent(a) <= percent(b)\<close> says of two percentages: each stands for a number, the
  number itself or the one a string of decimal digits spells (as \<open><=\<close> converts a string
  when the other operand is a number), and the first number is not the greater one.
\<close>

definition digit :: "char \<Rightarrow> nat option" where
  "digit c = (if c \<in> set ''0123456789'' then Some (of_char c - 48) else None)"

fun digits :: "nat \<Rightarrow> string \<Rightarrow> nat option" where
  "digits acc [] = Some acc"
| "digits acc (c # cs) = (case digit c of None \<Rightarrow> None | Some d \<Rightarrow> digits (10 * acc + d) cs)"

definition numeric :: "jsvalue \<Rightarrow> number option" where
  "numeric v =
     (case v of
        Num p \<Rightarrow> Some p
      | Str t \<Rightarrow> if t = [] then None else map_option of_nat (digits 0 t)
      | Nullish \<Rightarrow> None)"

definition percent_le :: "jsvalue \<Rightarrow> jsvalue \<Rightarrow> bool" where
  "percent_le a b =
     (case numeric a of
        None \<Rightarrow> False
      | Some x \<Rightarrow> (case numeric b of None \<Rightarrow> False | Some y \<Rightarrow> x \<le> y))"

text \<open>
  Chains for one cycle of the worker: one whose head is known and whose \<open>getLogs\<close> gives
  the same answer for every window, and one that cannot be reached at all.
\<close>

definition chain_of :: "int \<Rightarrow> log list rpc \<Rightarrow> chain" where
  "chain_of head logs = \<lparr>getBlockNumber = RpcOk head, getLogs = (\<lambda>fromBlock toBlock. logs)\<rparr>"

definition chain_down :: chain where
  "chain_down = \<lparr>getBlockNumber = RpcError, getLogs = (\<lambda>fromBlock toBlock. RpcError)\<rparr>"

text \<open>
  The scenario with the global percentages out of reach: \<open>fetch\<close> rejects, or the response
  is \<open>ok\<close> and its body is not JSON.
\<close>

definition tf2_rarity_unreachable :: world where
  "tf2_rarity_unreachable = tf2_world\<lparr>fetchGlobal := (\<lambda>url. NetworkError)\<rparr>"

definition tf2_rarity_garbled :: world where
  "tf2_rarity_garbled = tf2_world\<lparr>fetchGlobal := (\<lambda>url. HttpResponse 200 NotJson)\<rparr>"

text \<open>
  The scenario with a working, empty cache and a global-percentages response that is \<open>ok\<close>
  with the body \<open>null\<close>, and a second visitor of the same game.
\<close>

definition tf2_rarity_null :: world where
  "tf2_rarity_null =
     tf2_world\<lparr>connectOk := True, fetchGlobal := (\<lambda>url. HttpResponse 200 JsonFalsy)\<rparr>"

definition tf2_other_request :: request where
  "tf2_other_request = \<lparr>cookie = Some ''9999'', appIdParam = Some ''440''\<rparr>"

text \<open>The scenario with the global percentages refused by Steam (status 503).\<close>

definition tf2_rarity_refused :: world where
  "tf2_rarity_refused = tf2_world\<lparr>fetchGlobal := (\<lambda>url. HttpResponse 503 NotJson)\<rparr>"

section \<open>Lemmas\<close>

subsection \<open>One polling cycle, case by case\<close>

lemma poll_err:
  "getBlockNumber c = RpcError \<Longrightarrow>
   pollForEvents w c = \<lparr>after = w, query = None, surfaced = [], failed = True\<rparr>"
  by (simp add: pollForEvents_def)

lemma poll_idle:
  assumes "getBlockNumber c = RpcOk head" and "head \<le> seeded w head"
  shows "pollForEvents w c =
     \<lparr>after = Some (seeded w head), query = None, surfaced = [], failed = False\<rparr>"
  using assms unfolding pollForEvents_def Let_def BLOCKS_PER_POLL_def seeded_def
  by (cases w) simp_all

lemma poll_fetch_err:
  assumes "getBlockNumber c = RpcOk head" and "seeded w head < head"
    and "getLogs c (seeded w head + 1) (min (seeded w head + 500) head) = RpcError"
  shows "pollForEvents w c =
     \<lparr>after = Some (seeded w head),
      query = Some (seeded w head + 1, min (seeded w head + 500) head),
      surfaced = [], failed = True\<rparr>"
  using assms unfolding pollForEvents_def Let_def BLOCKS_PER_POLL_def min_def seeded_def
  by (cases w) (simp_all split: if_splits)

lemma poll_fetch_ok:
  assumes "getBlockNumber c = RpcOk head" and "seeded w head < head"
    and "getLogs c (seeded w head + 1) (min (seeded w head + 500) head) = RpcOk logs"
  shows "pollForEvents w c =
     \<lparr>after = Some (min (seeded w head + 500) head),
      query = Some (seeded w head + 1, min (seeded w head + 500) head),
      surfaced = (if length logs > 0 then processLogs logs else []), failed = False\<rparr>"
  using assms unfolding pollForEvents_def Let_def BLOCKS_PER_POLL_def min_def seeded_def
  by (cases w) (simp_all split: if_splits)

lemma poll_cases:
  obtains
    (head_error) "getBlockNumber c = RpcError"
      "pollForEvents w c = \<lparr>after = w, query = None, surfaced = [], failed = True\<rparr>"
  | (idle) head where "getBlockNumber c = RpcOk head" "head \<le> seeded w head"
      "pollForEvents w c =
         \<lparr>after = Some (seeded w head), query = None, surfaced = [], failed = False\<rparr>"
  | (logs_error) head where "getBlockNumber c = RpcOk head" "seeded w head < head"
      "getLogs c (seeded w head + 1) (min (seeded w head + 500) head) = RpcError"
      "pollForEvents w c =
         \<lparr>after = Some (seeded w head),
          query = Some (seeded w head + 1, min (seeded w head + 500) head),
          surfaced = [], failed = True\<rparr>"
  | (advanced) head logs where "getBlockNumber c = RpcOk head" "seeded w head < head"
      "getLogs c (seeded w head + 1) (min (seeded w head + 500) head) = RpcOk logs"
      "pollForEvents w c =
         \<lparr>after = Some (min (seeded w head + 500) head),
          query = Some (seeded w head + 1, min (seeded w head + 500) head),
          surfaced = (if length logs > 0 then processLogs logs else []), failed = False\<rparr>"
proof (cases "getBlockNumber c")
  case RpcError
  then show ?thesis using head_error poll_err by blast
next
  case (RpcOk head)
  show ?thesis
  proof (cases "head \<le> seeded w head")
    case True
    with RpcOk show ?thesis using idle poll_idle by blast
  next
    case False
    then have lt: "seeded w head < head" by simp
    show ?thesis
    proof (cases "getLogs c (seeded w head + 1) (min (seeded w head + 500) head)")
      case RpcError
      with RpcOk lt show ?thesis using logs_error poll_fetch_err by blast
    next
      case (RpcOk logs)
      with \<open>getBlockNumber c = RpcOk head\<close> lt show ?thesis
        using advanced poll_fetch_ok by blast
    qed
  qed
qed

lemma wm_le_refl: "wm_le a a"
  by (cases a) simp_all

lemma wm_le_trans: "wm_le a b \<Longrightarrow> wm_le b c \<Longrightarrow> wm_le a c"
  by (cases a; cases b; cases c) simp_all

lemma pollForEvents_mono: "wm_le w (after (pollForEvents w c))"
proof (cases rule: poll_cases[of c w])
  case head_error
  then show ?thesis by (simp add: wm_le_refl)
next
  case (idle head)
  then show ?thesis by (cases w) (simp_all add: seeded_def)
next
  case (logs_error head)
  then show ?thesis by (cases w) (simp_all add: seeded_def)
next
  case (advanced head logs)
  then show ?thesis by (cases w) (simp_all add: seeded_def)
qed

lemma poll_failed_keeps:
  "failed (pollForEvents (Some b) c) \<Longrightarrow> after (pollForEvents (Some b) c) = Some b"
  by (cases rule: poll_cases[of c "Some b"]) (simp_all add: seeded_def)

lemma poll_advance:
  assumes "after (pollForEvents (Some b) c) \<noteq> Some b"
  shows "\<not> failed (pollForEvents (Some b) c) \<and>
     (\<exists>hi logs. query (pollForEvents (Some b) c) = Some (b + 1, hi) \<and>
           getLogs c (b + 1) hi = RpcOk logs \<and>
           after (pollForEvents (Some b) c) = Some hi \<and> b < hi)"
proof (cases rule: poll_cases[of c "Some b"])
  case head_error
  with assms show ?thesis by simp
next
  case (idle head)
  with assms show ?thesis by (simp add: seeded_def)
next
  case (logs_error head)
  with assms show ?thesis by (simp add: seeded_def)
next
  case (advanced head logs)
  then show ?thesis by (simp add: seeded_def)
qed

lemma poll_cold_failed:
  assumes "failed (pollForEvents None c)"
  shows "(getBlockNumber c = RpcError \<and> after (pollForEvents None c) = None) \<or>
     (\<exists>head. getBlockNumber c = RpcOk head \<and>
        after (pollForEvents None c) = Some (if head > 100 then head - 100 else 0))"
proof (cases rule: poll_cases[of c None])
  case head_error
  then show ?thesis by simp
next
  case (idle head)
  with assms show ?thesis by simp
next
  case (logs_error head)
  then show ?thesis by (simp add: seeded_def)
next
  case (advanced head logs)
  with assms show ?thesis by simp
qed

lemma poll_warm:
  "\<forall>b. w = Some b \<longrightarrow>
     (failed (pollForEvents w c) \<longrightarrow> after (pollForEvents w c) = Some b) \<and>
     (after (pollForEvents w c) \<noteq> Some b \<longrightarrow>
        \<not> failed (pollForEvents w c) \<and>
        (\<exists>hi logs. query (pollForEvents w c) = Some (b + 1, hi) \<and>
           getLogs c (b + 1) hi = RpcOk logs \<and>
           after (pollForEvents w c) = Some hi \<and> b < hi)) \<and>
     (\<forall>head logs. getBlockNumber c = RpcOk head \<and> b < head \<and>
           getLogs c (b + 1) (min (b + 500) head) = RpcOk logs \<longrightarrow>
           \<not> failed (pollForEvents w c) \<and>
           after (pollForEvents w c) = Some (min (b + 500) head))"
proof (intro allI impI)
  fix b assume w: "w = Some b"
  have 1: "failed (pollForEvents (Some b) c) \<longrightarrow> after (pollForEvents (Some b) c) = Some b"
    using poll_failed_keeps by blast
  have 2: "after (pollForEvents (Some b) c) \<noteq> Some b \<longrightarrow>
        \<not> failed (pollForEvents (Some b) c) \<and>
        (\<exists>hi logs. query (pollForEvents (Some b) c) = Some (b + 1, hi) \<and>
           getLogs c (b + 1) hi = RpcOk logs \<and>
           after (pollForEvents (Some b) c) = Some hi \<and> b < hi)"
    using poll_advance by blast
  have 3: "\<forall>head logs. getBlockNumber c = RpcOk head \<and> b < head \<and>
           getLogs c (b + 1) (min (b + 500) head) = RpcOk logs \<longrightarrow>
           \<not> failed (pollForEvents (Some b) c) \<and>
           after (pollForEvents (Some b) c) = Some (min (b + 500) head)"
  proof (intro allI impI)
    fix head logs
    assume h: "getBlockNumber c = RpcOk head \<and> b < head \<and>
               getLogs c (b + 1) (min (b + 500) head) = RpcOk logs"
    have s: "seeded (Some b) head = b" by (simp add: seeded_def)
    from h have "pollForEvents (Some b) c =
       \<lparr>after = Some (min (b + 500) head), query = Some (b + 1, min (b + 500) head),
        surfaced = (if length logs > 0 then processLogs logs else []), failed = False\<rparr>"
      using poll_fetch_ok[of c head "Some b" logs] by (simp add: s)
    then show "\<not> failed (pollForEvents (Some b) c) \<and>
           after (pollForEvents (Some b) c) = Some (min (b + 500) head)"
      by simp
  qed
  from 1 2 3 show "(failed (pollForEvents w c) \<longrightarrow> after (pollForEvents w c) = Some b) \<and>
     (after (pollForEvents w c) \<noteq> Some b \<longrightarrow>
        \<not> failed (pollForEvents w c) \<and>
        (\<exists>hi logs. query (pollForEvents w c) = Some (b + 1, hi) \<and>
           getLogs c (b + 1) hi = RpcOk logs \<and>
           after (pollForEvents w c) = Some hi \<and> b < hi)) \<and>
     (\<forall>head logs. getBlockNumber c = RpcOk head \<and> b < head \<and>
           getLogs c (b + 1) (min (b + 500) head) = RpcOk logs \<longrightarrow>
           \<not> failed (pollForEvents w c) \<and>
           after (pollForEvents w c) = Some (min (b + 500) head))"
    unfolding w by (intro conjI)
qed

lemma poll_cold:
  "w = None \<and> failed (pollForEvents w c) \<longrightarrow>
     (getBlockNumber c = RpcError \<and> after (pollForEvents w c) = None) \<or>
     (\<exists>head. getBlockNumber c = RpcOk head \<and>
        after (pollForEvents w c) = Some (if head > 100 then head - 100 else 0))"
proof
  assume "w = None \<and> failed (pollForEvents w c)"
  then have w: "w = None" and "failed (pollForEvents None c)" by auto
  from poll_cold_failed[OF this(2)]
  show "(getBlockNumber c = RpcError \<and> after (pollForEvents w c) = None) \<or>
     (\<exists>head. getBlockNumber c = RpcOk head \<and>
        after (pollForEvents w c) = Some (if head > 100 then head - 100 else 0))"
    unfolding w .
qed

lemma poll_head_error:
  "getBlockNumber c = RpcError \<longrightarrow>
     failed (pollForEvents w c) \<and> query (pollForEvents w c) = None \<and>
     after (pollForEvents w c) = w"
  by (simp add: poll_err)

lemma poll_head_known:
  "\<forall>head. getBlockNumber c = RpcOk head \<longrightarrow>
     (head \<le> seeded w head \<longrightarrow>
        \<not> failed (pollForEvents w c) \<and> query (pollForEvents w c) = None \<and>
        after (pollForEvents w c) = Some (seeded w head)) \<and>
     (seeded w head < head \<longrightarrow>
        query (pollForEvents w c)
          = Some (seeded w head + 1, min (seeded w head + 500) head) \<and>
        (getLogs c (seeded w head + 1) (min (seeded w head + 500) head) = RpcError \<longrightarrow>
           failed (pollForEvents w c) \<and> after (pollForEvents w c) = Some (seeded w head)) \<and>
        (\<forall>logs. getLogs c (seeded w head + 1) (min (seeded w head + 500) head) = RpcOk logs \<longrightarrow>
           \<not> failed (pollForEvents w c) \<and>
           after (pollForEvents w c) = Some (min (seeded w head + 500) head)))"
proof (cases rule: poll_cases[of c w])
  case head_error
  then show ?thesis by simp
next
  case (idle head)
  then show ?thesis by simp
next
  case (logs_error head)
  then show ?thesis by simp
next
  case (advanced head logs)
  then show ?thesis by simp
qed

lemma poll_cold_ok:
  "w = None \<longrightarrow>
     (\<forall>head logs. getBlockNumber c = RpcOk head \<and> 0 < head \<and>
        getLogs c ((if head > 100 then head - 100 else 0) + 1) head = RpcOk logs \<longrightarrow>
        \<not> failed (pollForEvents w c) \<and>
        query (pollForEvents w c) = Some ((if head > 100 then head - 100 else 0) + 1, head) \<and>
        after (pollForEvents w c) = Some head)"
proof (intro allI impI)
  fix head logs
  assume w: "w = None"
    and h: "getBlockNumber c = RpcOk head \<and> 0 < head \<and>
            getLogs c ((if head > 100 then head - 100 else 0) + 1) head = RpcOk logs"
  have s: "seeded None head = (if head > 100 then head - 100 else 0)"
    by (simp add: seeded_def)
  from h have m: "min (seeded None head + 500) head = head" and l: "seeded None head < head"
    unfolding s by (simp_all add: min_def)
  from h have "pollForEvents None c =
       \<lparr>after = Some (min (seeded None head + 500) head),
        query = Some (seeded None head + 1, min (seeded None head + 500) head),
        surfaced = (if length logs > 0 then processLogs logs else []), failed = False\<rparr>"
    by (intro poll_fetch_ok l) (simp_all add: m, simp add: s)
  then show "\<not> failed (pollForEvents w c) \<and>
        query (pollForEvents w c) = Some ((if head > 100 then head - 100 else 0) + 1, head) \<and>
        after (pollForEvents w c) = Some head"
    unfolding w m by (simp add: s)
qed

lemmas worker_defs = pollForEvents_def Let_def BLOCKS_PER_POLL_def

subsection \<open>Sequences of cycles\<close>

lemma watermarks_Cons:
  "watermarks w (c # cs) = w # watermarks (after (pollForEvents w c)) cs"
  by (simp add: watermarks_def Let_def)

lemma watermarks_head_le: "x \<in> set (watermarks w cs) \<Longrightarrow> wm_le w x"
proof (induction cs arbitrary: w)
  case Nil
  then show ?case by (simp add: watermarks_def wm_le_refl)
next
  case (Cons c cs)
  from Cons.prems have "x = w \<or> x \<in> set (watermarks (after (pollForEvents w c)) cs)"
    by (simp add: watermarks_Cons)
  then show ?case
  proof
    assume "x = w" then show ?thesis by (simp add: wm_le_refl)
  next
    assume "x \<in> set (watermarks (after (pollForEvents w c)) cs)"
    then have "wm_le (after (pollForEvents w c)) x" by (rule Cons.IH)
    with pollForEvents_mono show ?thesis by (rule wm_le_trans)
  qed
qed

lemma watermarks_sorted: "sorted_wrt wm_le (watermarks w cs)"
proof (induction cs arbitrary: w)
  case Nil
  show ?case by (simp add: watermarks_def)
next
  case (Cons c cs)
  have "\<forall>x \<in> set (watermarks (after (pollForEvents w c)) cs). wm_le w x"
    using watermarks_head_le pollForEvents_mono wm_le_trans by blast
  with Cons.IH show ?case by (simp add: watermarks_Cons)
qed

lemma runCycles_nth:
  "i < length cs \<Longrightarrow>
     runCycles w cs ! i = pollForEvents (watermarks w cs ! i) (cs ! i) \<and>
     watermarks w cs ! Suc i = after (runCycles w cs ! i)"
proof (induction cs arbitrary: w i)
  case Nil
  then show ?case by simp
next
  case (Cons c cs)
  show ?case
  proof (cases i)
    case 0
    then show ?thesis by (simp add: watermarks_def Let_def)
  next
    case (Suc j)
    with Cons.prems have "j < length cs" by simp
    from Cons.IH[OF this, of "after (pollForEvents w c)"] Suc show ?thesis
      by (simp add: watermarks_def Let_def)
  qed
qed

subsection \<open>Token ids\<close>

lemma hexToBigInt_snoc: "hexToBigInt (bs @ [b]) = hexToBigInt bs * 256 + unat b"
  by (simp add: hexToBigInt_def)

lemma hexToBigInt_bound: "hexToBigInt bs < 256 ^ length bs"
proof (induction bs rule: rev_induct)
  case Nil
  show ?case by (simp add: hexToBigInt_def)
next
  case (snoc b bs)
  have "unat b < 256" using unsigned_less[of b] by simp
  with snoc show ?case by (simp add: hexToBigInt_snoc)
qed

lemma big_endian_4:
  assumes "0 \<le> (v::int)" "v < 4294967296"
  shows "((v div 16777216 mod 256 * 256 + v div 65536 mod 256) * 256 + v div 256 mod 256) * 256
           + v mod 256 = v"
proof -
  define a where "a = v div 256"
  define b where "b = a div 256"
  define c where "c = b div 256"
  have b: "v div 65536 = b" unfolding b_def a_def by (simp add: zdiv_zmult2_eq[symmetric])
  have c: "v div 16777216 = c" unfolding c_def b_def a_def by (simp add: zdiv_zmult2_eq[symmetric])
  have "0 \<le> c \<and> c < 256" using assms unfolding c[symmetric] by linarith
  then have c256: "c mod 256 = c" by simp
  have "v = a * 256 + v mod 256" unfolding a_def by simp
  moreover have "a = b * 256 + a mod 256" unfolding b_def by simp
  moreover have "b = c * 256 + b mod 256" unfolding c_def by simp
  ultimately show ?thesis unfolding b c c256 a_def[symmetric] by simp
qed

lemma numberToHex4_value:
  assumes "0 \<le> v" "v < 2 ^ 32"
  shows "\<exists>b. numberToHex4 v = Some b \<and> length b = 4 \<and> int (hexToBigInt b) = v"
proof -
  have u: "\<And>x::int. uint (word_of_int x :: byte) = x mod 256"
    by (simp add: uint_word_of_int)
  have "int (hexToBigInt [word_of_int (v div 2 ^ 24), word_of_int (v div 2 ^ 16),
                 word_of_int (v div 2 ^ 8), word_of_int v :: byte])
      = ((v div 16777216 mod 256 * 256 + v div 65536 mod 256) * 256 + v div 256 mod 256) * 256
           + v mod 256"
    by (simp add: hexToBigInt_def u)
  also have "\<dots> = v" using assms by (intro big_endian_4) simp_all
  finally show ?thesis using assms by (simp add: numberToHex4_def)
qed

lemma handleMint_ready:
  "a \<noteq> 0 \<Longrightarrow> addr \<noteq> [] \<Longrightarrow> generateTokenId keccak256 a n = Some t \<Longrightarrow>
   handleMint keccak256 (Some a) True (Some addr) TARGET_CHAIN_ID n = WriteContract addr t a n"
  by (simp add: handleMint_def falsy_def)

subsection \<open>Evaluating the handler\<close>

lemmas handler_defs = GET_def tryBlock_def resolveData_def resolvePlayer_def resolveSchema_def
  resolveGlobal_def fetchPlayerAchievements_def fetchGameSchema_def fetchGlobalPercentages_def
  validatePlayer_def cachedData_def cacheResult_def getRedisClient_def redis_get_def redis_set_def
  playerSuccess_def schemaAchievementsOf_def json_def ok_def Let_def

lemmas combine_defs = combinedAchievements_def combine_def playerAchievementsMap_def
  globalPercentagesMap_def newMap_def playerAchievementsOf_def globalAchievementsOf_def
  array_sort_def compareAchievements_def

lemmas tf2_defs = tf2_world_def tf2_request_def tf2_schema_def tf2_player_def tf2_global_def

lemma tf2_run: "fst (GET tf2_request tf2_world) =
  \<lparr>status = 200, body = AchievementsBody ''Team Fortress 2'' ''7656''
     [\<lparr>name = ''TF_PLAY_GAME'', defaultvalue = 0, displayName = ''Play'', hidden = 0,
            description = ''Play a game'', icon = ''a.jpg'', icongray = ''b.jpg'',
            achieved = True, unlocktime = 1700000000, percent = Num 80\<rparr>,
      \<lparr>name = ''TF_GET_KILL'', defaultvalue = 0, displayName = ''Kill'', hidden = 0,
            description = ''Get a kill'', icon = ''c.jpg'', icongray = ''d.jpg'',
            achieved = False, unlocktime = 0, percent = Num 40\<rparr>]\<rparr>"
  by (simp add: handler_defs combine_defs tf2_defs)

subsection \<open>Maps, combining and sorting\<close>

lemma find_snoc:
  "find P (xs @ [x]) = (case find P xs of Some a \<Rightarrow> Some a | None \<Rightarrow> if P x then Some x else None)"
  by (induction xs) simp_all

lemma fold_upd_lookup:
  "fold (\<lambda>(k, v) m. m(k \<mapsto> v)) (map (\<lambda>a. (f a, g a)) xs) m0 k =
     (case find (\<lambda>a. f a = k) (rev xs) of Some a \<Rightarrow> Some (g a) | None \<Rightarrow> m0 k)"
proof (induction xs arbitrary: m0)
  case Nil
  show ?case by simp
next
  case (Cons x xs)
  have "fold (\<lambda>(k, v) m. m(k \<mapsto> v)) (map (\<lambda>a. (f a, g a)) (x # xs)) m0 k =
        fold (\<lambda>(k, v) m. m(k \<mapsto> v)) (map (\<lambda>a. (f a, g a)) xs) (m0(f x \<mapsto> g x)) k"
    by simp
  also have "\<dots> = (case find (\<lambda>a. f a = k) (rev xs) of
                       Some a \<Rightarrow> Some (g a) | None \<Rightarrow> (m0(f x \<mapsto> g x)) k)"
    by (rule Cons.IH)
  also have "\<dots> = (case find (\<lambda>a. f a = k) (rev (x # xs)) of
                       Some a \<Rightarrow> Some (g a) | None \<Rightarrow> m0 k)"
    by (auto simp: find_snoc split: option.split)
  finally show ?case .
qed

lemma newMap_lookup:
  "newMap (map (\<lambda>a. (f a, g a)) xs) k = map_option g (find (\<lambda>a. f a = k) (rev xs))"
  by (simp add: newMap_def fold_upd_lookup split: option.split)

lemma playerAchievementsMap_lookup:
  "playerAchievementsMap pl k = find (\<lambda>a. apiname a = k) (rev pl)"
  unfolding playerAchievementsMap_def newMap_lookup by (simp add: option.map_ident)

lemma globalPercentagesMap_lookup:
  "globalPercentagesMap gl k = map_option g_percent (find (\<lambda>a. g_name a = k) (rev gl))"
  unfolding globalPercentagesMap_def newMap_lookup ..

lemma truncate_combine: "AchievementSchema.truncate (combine pm gm s) = s"
  by (simp add: combine_def AchievementSchema.truncate_def Let_def)

lemma combine_fields:
  "name (combine pm gm s) = name s"
  "achieved (combine pm gm s) = (case pm (name s) of None \<Rightarrow> False | Some p \<Rightarrow> p_achieved p = 1)"
  "unlocktime (combine pm gm s) = (case pm (name s) of None \<Rightarrow> 0 | Some p \<Rightarrow> p_unlocktime p)"
  "percent (combine pm gm s) =
     (case gm (name s) of None \<Rightarrow> Num 100 | Some p \<Rightarrow> if p = Nullish then Num 100 else p)"
  by (simp_all add: combine_def Let_def)

lemma mset_insert_by: "mset (insert_by c x xs) = add_mset x (mset xs)"
  by (induction xs) simp_all

lemma mset_array_sort: "mset (array_sort c xs) = mset xs"
  by (induction xs) (simp_all add: array_sort_def mset_insert_by)

lemma length_array_sort: "length (array_sort c xs) = length xs"
  using mset_array_sort[of c xs] by (metis size_mset)

lemma set_array_sort: "set (array_sort c xs) = set xs"
  using mset_array_sort[of c xs] by (metis set_mset_mset)

lemma compare_le: "compareAchievements a b \<le> 0 \<longleftrightarrow> precedes a b"
  by (auto simp: compareAchievements_def precedes_def Let_def)

lemma precedes_total: "\<not> precedes a b \<Longrightarrow> precedes b a"
  by (auto simp: precedes_def)

lemma precedes_trans: "precedes a b \<Longrightarrow> precedes b c \<Longrightarrow> precedes a c"
  by (auto simp: precedes_def)

lemma set_insert_by: "set (insert_by c x xs) = insert x (set xs)"
  using mset_insert_by[of c x xs] by (metis set_mset_mset set_mset_add_mset_insert)

lemma sorted_insert_by:
  "sorted_wrt precedes xs \<Longrightarrow> sorted_wrt precedes (insert_by compareAchievements x xs)"
proof (induction xs)
  case Nil
  show ?case by simp
next
  case (Cons y ys)
  show ?case
  proof (cases "compareAchievements x y \<le> 0")
    case True
    then have "precedes x y" by (simp add: compare_le)
    moreover from this Cons.prems have "\<forall>z \<in> set ys. precedes x z"
      using precedes_trans by auto
    ultimately show ?thesis using True Cons.prems by simp
  next
    case False
    then have "precedes y x" using precedes_total by (simp add: compare_le)
    with False Cons show ?thesis by (auto simp: set_insert_by)
  qed
qed

lemma sorted_array_sort: "sorted_wrt precedes (array_sort compareAchievements xs)"
  by (induction xs) (simp_all add: array_sort_def sorted_insert_by)

lemma filter_insert_by:
  assumes "\<And>y. P x \<Longrightarrow> P y \<Longrightarrow> compareAchievements x y \<le> 0"
  shows "filter P (insert_by compareAchievements x xs) =
           (if P x then x # filter P xs else filter P xs)"
proof (induction xs)
  case Nil
  show ?case by simp
next
  case (Cons y ys)
  show ?case
  proof (cases "compareAchievements x y \<le> 0")
    case True
    then show ?thesis by simp
  next
    case False
    with assms have "\<not> (P x \<and> P y)" by blast
    with False Cons show ?thesis by auto
  qed
qed

lemma filter_array_sort:
  assumes "\<And>x y. P x \<Longrightarrow> P y \<Longrightarrow> compareAchievements x y \<le> 0"
  shows "filter P (array_sort compareAchievements xs) = filter P xs"
proof (induction xs)
  case Nil
  show ?case by (simp add: array_sort_def)
next
  case (Cons x xs)
  have "filter P (array_sort compareAchievements (x # xs)) =
        filter P (insert_by compareAchievements x (array_sort compareAchievements xs))"
    by (simp add: array_sort_def)
  also have "\<dots> = (if P x then x # filter P (array_sort compareAchievements xs)
                   else filter P (array_sort compareAchievements xs))"
    using assms by (intro filter_insert_by) blast
  finally show ?case by (simp add: Cons.IH)
qed

lemma stable_percent:
  "filter (\<lambda>c. achieved c = a \<and> percent c = p) (array_sort compareAchievements xs) =
   filter (\<lambda>c. achieved c = a \<and> percent c = p) xs"
  by (rule filter_array_sort) (simp add: compareAchievements_def comparedPercent_def)

lemma stable_comparedPercent:
  "filter (\<lambda>c. achieved c = a \<and> comparedPercent c = q) (array_sort compareAchievements xs) =
   filter (\<lambda>c. achieved c = a \<and> comparedPercent c = q) xs"
  by (rule filter_array_sort) (simp add: compareAchievements_def)

lemma combined_truncate:
  "map AchievementSchema.truncate (combinedAchievements sch pl gl) = sch"
  by (simp add: combinedAchievements_def truncate_combine comp_def)

lemma combined_member:
  assumes "c \<in> set (combinedAchievements sch pl gl)"
  shows "achieved c = (case find (\<lambda>p. apiname p = name c) (rev pl) of
                         None \<Rightarrow> False | Some p \<Rightarrow> p_achieved p = 1)"
    and "unlocktime c = (case find (\<lambda>p. apiname p = name c) (rev pl) of
                         None \<Rightarrow> 0 | Some p \<Rightarrow> p_unlocktime p)"
    and "percent c = (case find (\<lambda>a. g_name a = name c) (rev gl) of
                         None \<Rightarrow> Num 100
                       | Some a \<Rightarrow> if g_percent a = Nullish then Num 100 else g_percent a)"
proof -
  from assms obtain s where
    c: "c = combine (playerAchievementsMap pl) (globalPercentagesMap gl) s"
    by (auto simp: combinedAchievements_def)
  show "achieved c = (case find (\<lambda>p. apiname p = name c) (rev pl) of
                         None \<Rightarrow> False | Some p \<Rightarrow> p_achieved p = 1)"
    by (simp add: c combine_fields playerAchievementsMap_lookup)
  show "unlocktime c = (case find (\<lambda>p. apiname p = name c) (rev pl) of
                         None \<Rightarrow> 0 | Some p \<Rightarrow> p_unlocktime p)"
    by (simp add: c combine_fields playerAchievementsMap_lookup)
  show "percent c = (case find (\<lambda>a. g_name a = name c) (rev gl) of
                         None \<Rightarrow> Num 100
                       | Some a \<Rightarrow> if g_percent a = Nullish then Num 100 else g_percent a)"
    by (simp add: c combine_fields globalPercentagesMap_lookup split: option.split)
qed

lemma precedes_adjacent:
  "precedes a b \<Longrightarrow>
     achieved a \<ge> achieved b \<and>
     (achieved a = achieved b \<longrightarrow> comparedPercent a \<le> comparedPercent b) \<and>
     (\<forall>x y. achieved a = achieved b \<and> percent a = Num x \<and> percent b = Num y \<longrightarrow> x \<le> y)"
  by (auto simp: precedes_def comparedPercent_def)

subsection \<open>The handler, forwards\<close>

lemma GET_valid:
  assumes "cookie req = Some steamId" "steamId \<noteq> []" "appIdParam req = Some appId" "appId \<noteq> []"
    and "STEAM_API_KEY w = Some steamApiKey" "steamApiKey \<noteq> []"
    and "getRedisClient w = (redis, w1)"
  shows "GET req w =
     (case tryBlock redis steamApiKey steamId appId w1 of
        (Some r, w') \<Rightarrow> (r, w')
      | (None, w') \<Rightarrow> (json 500 (Message ''An internal server error occurred.''), w'))"
  using assms by (simp add: GET_def)

lemma resolveData_Continue:
  assumes "resolvePlayer redis steamApiKey steamId appId w1 = (Continue pd, w2)"
    and "playerstats pd = Some ps" "success ps"
    and "resolveSchema redis steamApiKey appId w2 = (Continue sd, w3)"
    and "game sd = Some g" "schemaAchievementsOf sd = Some sch"
    and "resolveGlobal redis appId w3 = (Continue gd, w4)"
  shows "resolveData redis steamApiKey steamId appId w1 =
           (Continue \<lparr>d_player = ps, d_game = g, d_schema = sch, d_global = gd\<rparr>, w4)"
  using assms by (simp add: resolveData_def validatePlayer_def)

lemma GET_200:
  assumes "cookie req = Some steamId" "steamId \<noteq> []" "appIdParam req = Some appId" "appId \<noteq> []"
    and "STEAM_API_KEY w = Some steamApiKey" "steamApiKey \<noteq> []"
    and "getRedisClient w = (redis, w1)"
    and "resolveData redis steamApiKey steamId appId w1 = (Continue d, w')"
  shows "GET req w =
     (json 200 (AchievementsBody (gameName (d_game d)) steamId
        (array_sort compareAchievements
           (combinedAchievements (d_schema d) (playerAchievementsOf (d_player d))
              (globalAchievementsOf (d_global d))))), w')"
  using assms(8) by (simp add: GET_valid[OF assms(1-7)] tryBlock_def)

lemma getRedisClient_fields:
  "fetchPlayer (snd (getRedisClient w)) = fetchPlayer w"
  "fetchSchema (snd (getRedisClient w)) = fetchSchema w"
  "fetchGlobal (snd (getRedisClient w)) = fetchGlobal w"
  "store (snd (getRedisClient w)) = store w"
  "now (snd (getRedisClient w)) = now w"
  "getThrows (snd (getRedisClient w)) = getThrows w"
  "setThrows (snd (getRedisClient w)) = setThrows w"
  "calls (snd (getRedisClient w)) = calls w"
  "STEAM_API_KEY (snd (getRedisClient w)) = STEAM_API_KEY w"
  by (simp_all add: getRedisClient_def)

lemma fetchPlayer_unreadable:
  assumes "fetchPlayer w (playerAchievementsUrl k s a) = HttpResponse st (Json d)"
    and "playerstats d = Some ps" "\<not> success ps" "message ps = Some m" "m \<noteq> []"
  shows "(\<exists>w'. fetchPlayerAchievements redis k s a w = (Return (json 404 (Message m)), w')) \<or>
         (\<exists>w'. fetchPlayerAchievements redis k s a w = (Continue d, w'))"
  using assms by (simp add: fetchPlayerAchievements_def Let_def)

subsection \<open>The handler, backwards: where a response comes from\<close>

lemma fetchPlayerAchievements_Return:
  "fetchPlayerAchievements redis k s a w = (Return r, w') \<Longrightarrow> \<exists>m. body r = Message m"
  unfolding fetchPlayerAchievements_def Let_def json_def passOn_def
  by (auto split: fetch_result.splits body_text.splits option.splits if_splits)

lemma resolvePlayer_Return:
  "resolvePlayer redis k s a w = (Return r, w') \<Longrightarrow> \<exists>m. body r = Message m"
  unfolding resolvePlayer_def
  by (auto split: option.splits dest: fetchPlayerAchievements_Return)

lemma validatePlayer_Return:
  "validatePlayer d = Return r \<Longrightarrow> status r = 404 \<and> (\<exists>m. body r = Message m)"
  unfolding validatePlayer_def Let_def json_def
  by (auto split: option.splits if_splits)

lemma validatePlayer_Continue:
  "validatePlayer d = Continue ps \<longleftrightarrow> playerstats d = Some ps \<and> success ps"
  unfolding validatePlayer_def Let_def
  by (auto split: option.splits if_splits)

lemma validatePlayer_not_Throw: "validatePlayer d \<noteq> Throw"
  unfolding validatePlayer_def Let_def
  by (auto split: option.splits if_splits)

lemma fetchGameSchema_Return:
  "fetchGameSchema redis k a w = (Return r, w') \<Longrightarrow> \<exists>m. body r = Message m"
  unfolding fetchGameSchema_def Let_def json_def passOn_def
  by (auto split: fetch_result.splits body_text.splits if_splits)

lemma resolveSchema_Return:
  "resolveSchema redis k a w = (Return r, w') \<Longrightarrow> \<exists>m. body r = Message m"
  unfolding resolveSchema_def
  by (auto split: option.splits dest: fetchGameSchema_Return)

lemma fetchGlobalPercentages_not_Return:
  "fetchGlobalPercentages redis a w \<noteq> (Return r, w')"
  unfolding fetchGlobalPercentages_def Let_def
  by (auto split: fetch_result.splits body_text.splits if_splits)

lemma resolveGlobal_not_Return: "resolveGlobal redis a w \<noteq> (Return r, w')"
  unfolding resolveGlobal_def
  by (auto split: option.splits simp: fetchGlobalPercentages_not_Return)

lemma resolveData_Return:
  assumes "resolveData redis k s a w = (Return r, w')"
  shows "\<exists>m. body r = Message m"
proof (cases "resolvePlayer redis k s a w")
  case (Pair o1 w2)
  show ?thesis
  proof (cases o1)
    case (Return r1)
    with Pair assms have "r = r1" by (simp add: resolveData_def)
    with Pair Return show ?thesis using resolvePlayer_Return by blast
  next
    case Throw
    with Pair assms show ?thesis by (simp add: resolveData_def)
  next
    case (Continue pd)
    note c1 = this
    show ?thesis
    proof (cases "validatePlayer pd")
      case (Return r1)
      with Pair c1 assms have "r = r1" by (simp add: resolveData_def)
      with Return show ?thesis using validatePlayer_Return by blast
    next
      case Throw
      with Pair c1 assms show ?thesis by (simp add: resolveData_def)
    next
      case (Continue ps)
      note c2 = this
      show ?thesis
      proof (cases "resolveSchema redis k a w2")
        case (Pair o3 w3)
        note p3 = this
        show ?thesis
        proof (cases o3)
          case (Return r1)
          with \<open>resolvePlayer redis k s a w = (o1, w2)\<close> c1 c2 p3 assms have "r = r1"
            by (simp add: resolveData_def)
          with p3 Return show ?thesis using resolveSchema_Return by blast
        next
          case Throw
          with \<open>resolvePlayer redis k s a w = (o1, w2)\<close> c1 c2 p3 assms show ?thesis
            by (simp add: resolveData_def)
        next
          case (Continue sd)
          with \<open>resolvePlayer redis k s a w = (o1, w2)\<close> c1 c2 p3 assms show ?thesis
            by (auto simp: resolveData_def json_def resolveGlobal_not_Return
                split: option.splits prod.splits outcome.splits)
        qed
      qed
    qed
  qed
qed

lemma tryBlock_achievements:
  assumes "tryBlock redis k s a w = (Some resp, w')" "body resp = AchievementsBody gn sid r"
  shows "\<exists>d. resolveData redis k s a w = (Continue d, w') \<and>
           resp = json 200 (AchievementsBody (gameName (d_game d)) s
             (array_sort compareAchievements
                (combinedAchievements (d_schema d) (playerAchievementsOf (d_player d))
                   (globalAchievementsOf (d_global d)))))"
proof (cases "resolveData redis k s a w")
  case (Pair o1 w1)
  show ?thesis
  proof (cases o1)
    case (Return r1)
    with Pair assms(1) have "resp = r1" by (simp add: tryBlock_def)
    with Pair Return assms(2) show ?thesis using resolveData_Return by fastforce
  next
    case Throw
    with Pair assms show ?thesis by (simp add: tryBlock_def)
  next
    case (Continue d)
    with Pair assms show ?thesis by (auto simp: tryBlock_def)
  qed
qed

lemma GET_achievements:
  assumes "GET req w = (resp, w')" "body resp = AchievementsBody gn sid r"
  shows "\<exists>redis w1 steamApiKey appId d.
           cookie req = Some sid \<and> sid \<noteq> [] \<and> appIdParam req = Some appId \<and> appId \<noteq> [] \<and>
           STEAM_API_KEY w = Some steamApiKey \<and> steamApiKey \<noteq> [] \<and>
           getRedisClient w = (redis, w1) \<and>
           resolveData redis steamApiKey sid appId w1 = (Continue d, w') \<and>
           status resp = 200 \<and> gn = gameName (d_game d) \<and>
           r = array_sort compareAchievements
                (combinedAchievements (d_schema d) (playerAchievementsOf (d_player d))
                   (globalAchievementsOf (d_global d)))"
proof -
  obtain redis w1 where g: "getRedisClient w = (redis, w1)" by (cases "getRedisClient w")
  from assms obtain s where c: "cookie req = Some s" "s \<noteq> []"
    by (cases "cookie req") (auto simp: GET_def json_def split: if_splits)
  from assms c obtain a where a: "appIdParam req = Some a" "a \<noteq> []"
    by (cases "appIdParam req") (auto simp: GET_def json_def split: if_splits)
  from assms c a obtain k where k: "STEAM_API_KEY w = Some k" "k \<noteq> []"
    by (cases "STEAM_API_KEY w") (auto simp: GET_def json_def split: if_splits)
  note v = GET_valid[OF c a k g]
  obtain o1 w2 where t: "tryBlock redis k s a w1 = (o1, w2)" by (cases "tryBlock redis k s a w1")
  show ?thesis
  proof (cases o1)
    case None
    with v t assms show ?thesis by (simp add: json_def)
  next
    case (Some r1)
    with v t assms(1) have e: "resp = r1" "w' = w2" by simp_all
    from tryBlock_achievements[OF t[unfolded Some e[symmetric]] assms(2)]
    obtain d where d: "resolveData redis k s a w1 = (Continue d, w')"
      "resp = json 200 (AchievementsBody (gameName (d_game d)) s
             (array_sort compareAchievements
                (combinedAchievements (d_schema d) (playerAchievementsOf (d_player d))
                   (globalAchievementsOf (d_global d)))))" by blast
    from d(2) assms(2) have "sid = s" "gn = gameName (d_game d)"
      "r = array_sort compareAchievements
                (combinedAchievements (d_schema d) (playerAchievementsOf (d_player d))
                   (globalAchievementsOf (d_global d)))" "status resp = 200"
      by (simp_all add: json_def)
    with c a k g d(1) show ?thesis by blast
  qed
qed

subsection \<open>What the sections leave of the world, and what they need of it\<close>

lemma key_distinct:
  "playerCacheKey s a \<noteq> schemaCacheKey b" "playerCacheKey s a \<noteq> globalCacheKey b"
  "schemaCacheKey a \<noteq> globalCacheKey b" "schemaCacheKey b \<noteq> playerCacheKey s a"
  "globalCacheKey b \<noteq> playerCacheKey s a" "globalCacheKey b \<noteq> schemaCacheKey a"
  by (simp_all add: playerCacheKey_def schemaCacheKey_def globalCacheKey_def)

lemma cacheResult_fields:
  "fetchPlayer (cacheResult r v w k p) = fetchPlayer w"
  "fetchSchema (cacheResult r v w k p) = fetchSchema w"
  "fetchGlobal (cacheResult r v w k p) = fetchGlobal w"
  "getThrows (cacheResult r v w k p) = getThrows w"
  "setThrows (cacheResult r v w k p) = setThrows w"
  "now (cacheResult r v w k p) = now w"
  "calls (cacheResult r v w k p) = calls w"
  "k' \<noteq> k \<Longrightarrow> store (cacheResult r v w k p) k' = store w k'"
  by (simp_all add: cacheResult_def redis_set_def)

lemma resolvePlayer_fields:
  "fetchPlayer (snd (resolvePlayer r k s a w)) = fetchPlayer w"
  "fetchSchema (snd (resolvePlayer r k s a w)) = fetchSchema w"
  "fetchGlobal (snd (resolvePlayer r k s a w)) = fetchGlobal w"
  "getThrows (snd (resolvePlayer r k s a w)) = getThrows w"
  "setThrows (snd (resolvePlayer r k s a w)) = setThrows w"
  "now (snd (resolvePlayer r k s a w)) = now w"
  "k' \<noteq> playerCacheKey s a \<Longrightarrow> store (snd (resolvePlayer r k s a w)) k' = store w k'"
  by (simp_all add: resolvePlayer_def fetchPlayerAchievements_def Let_def cacheResult_fields
        split: option.split fetch_result.split body_text.split)

lemma resolveSchema_fields:
  "fetchPlayer (snd (resolveSchema r k a w)) = fetchPlayer w"
  "fetchSchema (snd (resolveSchema r k a w)) = fetchSchema w"
  "fetchGlobal (snd (resolveSchema r k a w)) = fetchGlobal w"
  "getThrows (snd (resolveSchema r k a w)) = getThrows w"
  "setThrows (snd (resolveSchema r k a w)) = setThrows w"
  "now (snd (resolveSchema r k a w)) = now w"
  "k' \<noteq> schemaCacheKey a \<Longrightarrow> store (snd (resolveSchema r k a w)) k' = store w k'"
  by (simp_all add: resolveSchema_def fetchGameSchema_def Let_def cacheResult_fields
        split: option.split fetch_result.split body_text.split)

lemma resolveGlobal_fields:
  "fetchPlayer (snd (resolveGlobal r a w)) = fetchPlayer w"
  "fetchSchema (snd (resolveGlobal r a w)) = fetchSchema w"
  "fetchGlobal (snd (resolveGlobal r a w)) = fetchGlobal w"
  "getThrows (snd (resolveGlobal r a w)) = getThrows w"
  "setThrows (snd (resolveGlobal r a w)) = setThrows w"
  "now (snd (resolveGlobal r a w)) = now w"
  "k' \<noteq> globalCacheKey a \<Longrightarrow> store (snd (resolveGlobal r a w)) k' = store w k'"
  by (simp_all add: resolveGlobal_def fetchGlobalPercentages_def Let_def cacheResult_fields
        split: option.split fetch_result.split body_text.split)

lemma resolvePlayer_miss:
  assumes "cachedData ra a (playerCacheKey s x) = None" "cachedData rb b (playerCacheKey s x) = None"
    and "fetchPlayer a = fetchPlayer b"
  shows "fst (resolvePlayer ra k s x a) = fst (resolvePlayer rb k s x b)"
  using assms
  by (simp add: resolvePlayer_def fetchPlayerAchievements_def Let_def
        split: fetch_result.split body_text.split option.split)

lemma resolveSchema_miss:
  assumes "cachedData ra a (schemaCacheKey x) = None" "cachedData rb b (schemaCacheKey x) = None"
    and "fetchSchema a = fetchSchema b"
  shows "fst (resolveSchema ra k x a) = fst (resolveSchema rb k x b)"
  using assms
  by (simp add: resolveSchema_def fetchGameSchema_def Let_def
        split: fetch_result.split body_text.split option.split)

lemma resolveGlobal_miss:
  assumes "cachedData ra a (globalCacheKey x) = None" "cachedData rb b (globalCacheKey x) = None"
    and "fetchGlobal a = fetchGlobal b"
  shows "fst (resolveGlobal ra x a) = fst (resolveGlobal rb x b)"
  using assms
  by (simp add: resolveGlobal_def fetchGlobalPercentages_def Let_def
        split: fetch_result.split body_text.split option.split)

lemma resolveData_fst:
  "fst (resolveData r k s x w) =
     (case fst (resolvePlayer r k s x w) of
        Throw \<Rightarrow> Throw
      | Return q \<Rightarrow> Return q
      | Continue pd \<Rightarrow>
          (case validatePlayer pd of
             Throw \<Rightarrow> Throw
           | Return q \<Rightarrow> Return q
           | Continue ps \<Rightarrow>
               (case fst (resolveSchema r k x (snd (resolvePlayer r k s x w))) of
                  Throw \<Rightarrow> Throw
                | Return q \<Rightarrow> Return q
                | Continue sd \<Rightarrow>
                    (case game sd of
                       None \<Rightarrow> Return (json 500 (Message ''Failed to parse game schema data.''))
                     | Some g \<Rightarrow>
                         (case schemaAchievementsOf sd of
                            None \<Rightarrow> Return (json 500 (Message ''Failed to parse game schema data.''))
                          | Some sch \<Rightarrow>
                              (case fst (resolveGlobal r x
                                     (snd (resolveSchema r k x (snd (resolvePlayer r k s x w))))) of
                                 Throw \<Rightarrow> Throw
                               | Return q \<Rightarrow> Return q
                               | Continue gd \<Rightarrow>
                                   Continue \<lparr>d_player = ps, d_game = g, d_schema = sch,
                                             d_global = gd\<rparr>))))))"
  by (simp add: resolveData_def split: prod.split outcome.split option.split)

subsection \<open>Fetch-through: a cache that gives nothing\<close>

lemma cachedData_unavailable:
  "\<not> redis \<or> (\<forall>k. getThrows w k) \<Longrightarrow> cachedData redis w key = None"
  by (auto simp: cachedData_def redis_get_def)

lemma cachedData_absent:
  "\<not> getThrows w key \<Longrightarrow> store w key = None \<Longrightarrow> cachedData redis w key = None"
  by (simp add: cachedData_def redis_get_def)

lemma tryBlock_fst:
  "fst (tryBlock r k s x w) =
     (case fst (resolveData r k s x w) of
        Throw \<Rightarrow> None
      | Return q \<Rightarrow> Some q
      | Continue d \<Rightarrow>
          Some (json 200 (AchievementsBody (gameName (d_game d)) s
             (array_sort compareAchievements
                (combinedAchievements (d_schema d) (playerAchievementsOf (d_player d))
                   (globalAchievementsOf (d_global d)))))))"
  by (simp add: tryBlock_def split: prod.split outcome.split)

lemma resolveData_fetch_through:
  assumes f: "fetchPlayer a = fetchPlayer b" "fetchSchema a = fetchSchema b"
             "fetchGlobal a = fetchGlobal b"
    and a: "\<not> ra \<or> (\<forall>k. getThrows a k)"
    and b: "\<forall>k. \<not> getThrows b k" "\<forall>k. store b k = None"
  shows "fst (resolveData ra k s x a) = fst (resolveData rb k s x b)"
proof -
  let ?a2 = "snd (resolvePlayer ra k s x a)" and ?b2 = "snd (resolvePlayer rb k s x b)"
  let ?a3 = "snd (resolveSchema ra k x ?a2)" and ?b3 = "snd (resolveSchema rb k x ?b2)"
  have p: "fst (resolvePlayer ra k s x a) = fst (resolvePlayer rb k s x b)"
    using a b f(1) by (intro resolvePlayer_miss cachedData_unavailable cachedData_absent) simp_all
  have a2: "\<not> ra \<or> (\<forall>k. getThrows ?a2 k)" using a by (simp add: resolvePlayer_fields)
  have b2: "\<not> getThrows ?b2 (schemaCacheKey x)" "store ?b2 (schemaCacheKey x) = None"
    using b by (simp_all add: resolvePlayer_fields key_distinct)
  have sc: "fst (resolveSchema ra k x ?a2) = fst (resolveSchema rb k x ?b2)"
    using a2 b2 f(2)
    by (intro resolveSchema_miss cachedData_unavailable cachedData_absent)
       (simp_all add: resolvePlayer_fields)
  have a3: "\<not> ra \<or> (\<forall>k. getThrows ?a3 k)"
    using a by (simp add: resolvePlayer_fields resolveSchema_fields)
  have b3: "\<not> getThrows ?b3 (globalCacheKey x)" "store ?b3 (globalCacheKey x) = None"
    using b by (simp_all add: resolvePlayer_fields resolveSchema_fields key_distinct)
  have gl: "fst (resolveGlobal ra x ?a3) = fst (resolveGlobal rb x ?b3)"
    using a3 b3 f(3)
    by (intro resolveGlobal_miss cachedData_unavailable cachedData_absent)
       (simp_all add: resolvePlayer_fields resolveSchema_fields)
  show ?thesis
    unfolding resolveData_fst p sc gl ..
qed

subsection \<open>What a request writes to the cache and what it calls\<close>

lemma cacheResult_client:
  "redisClient (cacheResult r v w k p) = redisClient w"
  "connectOk (cacheResult r v w k p) = connectOk w"
  "STEAM_API_KEY (cacheResult r v w k p) = STEAM_API_KEY w"
  by (simp_all add: cacheResult_def redis_set_def)

lemma resolvePlayer_client:
  "redisClient (snd (resolvePlayer r k s a w)) = redisClient w"
  "STEAM_API_KEY (snd (resolvePlayer r k s a w)) = STEAM_API_KEY w"
  by (simp_all add: resolvePlayer_def fetchPlayerAchievements_def Let_def cacheResult_client
        split: option.split fetch_result.split body_text.split)

lemma resolveSchema_client:
  "redisClient (snd (resolveSchema r k a w)) = redisClient w"
  "STEAM_API_KEY (snd (resolveSchema r k a w)) = STEAM_API_KEY w"
  by (simp_all add: resolveSchema_def fetchGameSchema_def Let_def cacheResult_client
        split: option.split fetch_result.split body_text.split)

lemma resolveGlobal_client:
  "redisClient (snd (resolveGlobal r a w)) = redisClient w"
  "STEAM_API_KEY (snd (resolveGlobal r a w)) = STEAM_API_KEY w"
  by (simp_all add: resolveGlobal_def fetchGlobalPercentages_def Let_def cacheResult_client
        split: option.split fetch_result.split body_text.split)

lemma calls_resolvePlayer:
  "calls (snd (resolvePlayer r k s x v)) =
     calls v @ (if cachedData r v (playerCacheKey s x) = None
                then [PlayerCall (playerAchievementsUrl k s x)] else [])"
  by (simp add: resolvePlayer_def fetchPlayerAchievements_def Let_def cacheResult_fields
        split: option.split fetch_result.split body_text.split)

lemma calls_resolveSchema:
  "calls (snd (resolveSchema r k x v)) =
     calls v @ (if cachedData r v (schemaCacheKey x) = None
                then [SchemaCall (schemaUrl k x)] else [])"
  by (simp add: resolveSchema_def fetchGameSchema_def Let_def cacheResult_fields
        split: option.split fetch_result.split body_text.split)

lemma calls_resolveGlobal:
  "calls (snd (resolveGlobal r x v)) =
     calls v @ (if cachedData r v (globalCacheKey x) = None
                then [GlobalCall (globalPercentagesUrl x)] else [])"
  by (simp add: resolveGlobal_def fetchGlobalPercentages_def Let_def cacheResult_fields
        split: option.split fetch_result.split body_text.split)

lemma store_resolvePlayer:
  assumes "\<not> setThrows v (playerCacheKey s x)" "cachedData True v (playerCacheKey s x) = None"
    and "fetchPlayer v (playerAchievementsUrl k s x) = HttpResponse st (Json d)" "ok st"
    and "playerSuccess d"
  shows "store (snd (resolvePlayer True k s x v)) (playerCacheKey s x)
           = Some (Serialized (PlayerPayload d), now v + CACHE_TTL_SECONDS)"
  using assms
  by (simp add: resolvePlayer_def fetchPlayerAchievements_def Let_def cacheResult_def redis_set_def)

lemma store_resolveSchema:
  assumes "\<not> setThrows v (schemaCacheKey x)" "cachedData True v (schemaCacheKey x) = None"
    and "fetchSchema v (schemaUrl k x) = HttpResponse st (Json d)" "ok st"
    and "schemaAchievementsOf d \<noteq> None"
  shows "store (snd (resolveSchema True k x v)) (schemaCacheKey x)
           = Some (Serialized (SchemaPayload d), now v + CACHE_TTL_SECONDS)"
  using assms
  by (simp add: resolveSchema_def fetchGameSchema_def Let_def cacheResult_def redis_set_def)

lemma store_resolveGlobal:
  assumes "\<not> setThrows v (globalCacheKey x)" "cachedData True v (globalCacheKey x) = None"
    and "fetchGlobal v (globalPercentagesUrl x) = HttpResponse st (Json d)" "ok st"
  shows "store (snd (resolveGlobal True x v)) (globalCacheKey x)
           = Some (Serialized (GlobalPayload d), now v + CACHE_TTL_SECONDS)"
  using assms
  by (simp add: resolveGlobal_def fetchGlobalPercentages_def Let_def cacheResult_def redis_set_def)

lemma cachedData_cong:
  "getThrows a key = getThrows b key \<Longrightarrow> store a key = store b key \<Longrightarrow> now a = now b \<Longrightarrow>
   cachedData r a key = cachedData r b key"
  by (auto simp: cachedData_def redis_get_def split: option.splits)

lemma cachedData_hit:
  "\<not> getThrows v key \<Longrightarrow> store v key = Some (Serialized p, e) \<Longrightarrow> now v < e \<Longrightarrow>
   cachedData True v key = Some p"
  by (simp add: cachedData_def redis_get_def)

lemma resolveData_snd:
  "snd (resolveData r k s x w) =
     (let w2 = snd (resolvePlayer r k s x w); w3 = snd (resolveSchema r k x w2);
          w4 = snd (resolveGlobal r x w3)
      in case fst (resolvePlayer r k s x w) of
           Throw \<Rightarrow> w2
         | Return q \<Rightarrow> w2
         | Continue pd \<Rightarrow>
             (case validatePlayer pd of
                Throw \<Rightarrow> w2
              | Return q \<Rightarrow> w2
              | Continue ps \<Rightarrow>
                  (case fst (resolveSchema r k x w2) of
                     Throw \<Rightarrow> w3
                   | Return q \<Rightarrow> w3
                   | Continue sd \<Rightarrow>
                       (case game sd of
                          None \<Rightarrow> w3
                        | Some g \<Rightarrow>
                            (case schemaAchievementsOf sd of None \<Rightarrow> w3 | Some sch \<Rightarrow> w4)))))"
proof -
  obtain o1 w2 where p: "resolvePlayer r k s x w = (o1, w2)"
    by (cases "resolvePlayer r k s x w")
  obtain o3 w3 where sc: "resolveSchema r k x w2 = (o3, w3)"
    by (cases "resolveSchema r k x w2")
  obtain o4 w4 where g: "resolveGlobal r x w3 = (o4, w4)"
    by (cases "resolveGlobal r x w3")
  show ?thesis
    unfolding resolveData_def Let_def
    by (simp add: p sc g split: outcome.split option.split)
qed

lemma resolveData_world:
  "snd (resolveData r k s x w) = snd (resolvePlayer r k s x w) \<or>
   snd (resolveData r k s x w) = snd (resolveSchema r k x (snd (resolvePlayer r k s x w))) \<or>
   snd (resolveData r k s x w)
     = snd (resolveGlobal r x (snd (resolveSchema r k x (snd (resolvePlayer r k s x w)))))"
  by (simp add: resolveData_snd Let_def split: outcome.split option.split)

lemma GET_world:
  assumes "cookie req = Some s" "s \<noteq> []" "appIdParam req = Some x" "x \<noteq> []"
    and "STEAM_API_KEY w = Some k" "k \<noteq> []"
    and "getRedisClient w = (r, w1)"
  shows "snd (GET req w) = snd (resolveData r k s x w1)"
  by (simp add: GET_valid[OF assms] tryBlock_def split: prod.split outcome.split option.split)

lemma store_other_keys:
  "store (snd (resolveSchema r k x v)) (playerCacheKey s a) = store v (playerCacheKey s a)"
  "store (snd (resolveGlobal r x v)) (playerCacheKey s a) = store v (playerCacheKey s a)"
  "store (snd (resolveGlobal r x v)) (schemaCacheKey a) = store v (schemaCacheKey a)"
  "store (snd (resolvePlayer r k s x v)) (schemaCacheKey a) = store v (schemaCacheKey a)"
  "store (snd (resolvePlayer r k s x v)) (globalCacheKey a) = store v (globalCacheKey a)"
  "store (snd (resolveSchema r k x v)) (globalCacheKey a) = store v (globalCacheKey a)"
  by (simp_all add: resolvePlayer_fields resolveSchema_fields resolveGlobal_fields key_distinct)

lemma cachedData_other_keys:
  "cachedData r (snd (resolvePlayer r' k s x v)) (schemaCacheKey a) = cachedData r v (schemaCacheKey a)"
  "cachedData r (snd (resolvePlayer r' k s x v)) (globalCacheKey a) = cachedData r v (globalCacheKey a)"
  "cachedData r (snd (resolveSchema r' k x v)) (globalCacheKey a) = cachedData r v (globalCacheKey a)"
  by (rule cachedData_cong;
      simp add: resolvePlayer_fields resolveSchema_fields resolveGlobal_fields store_other_keys)+

text \<open>The world after the data were resolved, for each of the three keys.\<close>

lemma resolveData_player_entry:
  assumes "PlayerCall u \<in> set (calls (snd (resolveData True k s x v)))" "calls v = []"
    and "\<not> setThrows v (playerCacheKey s x)"
    and "fetchPlayer v (playerAchievementsUrl k s x) = HttpResponse st (Json d)" "ok st"
    and "playerSuccess d"
  shows "store (snd (resolveData True k s x v)) (playerCacheKey s x)
           = Some (Serialized (PlayerPayload d), now v + CACHE_TTL_SECONDS)"
proof -
  let ?v2 = "snd (resolvePlayer True k s x v)"
  have c: "PlayerCall u \<in> set (calls ?v2)"
    using assms(1) resolveData_world[of True k s x v]
    by (auto simp: calls_resolveSchema calls_resolveGlobal split: if_splits)
  then have miss: "cachedData True v (playerCacheKey s x) = None"
    using assms(2) by (simp add: calls_resolvePlayer split: if_splits)
  have "store ?v2 (playerCacheKey s x) = Some (Serialized (PlayerPayload d), now v + CACHE_TTL_SECONDS)"
    using assms(3) miss assms(4-6) by (rule store_resolvePlayer)
  then show ?thesis
    using resolveData_world[of True k s x v] by (auto simp: store_other_keys)
qed

lemma resolveData_schema_entry:
  assumes "SchemaCall u \<in> set (calls (snd (resolveData True k s x v)))" "calls v = []"
    and "\<not> setThrows v (schemaCacheKey x)"
    and "fetchSchema v (schemaUrl k x) = HttpResponse st (Json d)" "ok st"
    and "schemaAchievementsOf d \<noteq> None"
  shows "store (snd (resolveData True k s x v)) (schemaCacheKey x)
           = Some (Serialized (SchemaPayload d), now v + CACHE_TTL_SECONDS)"
proof -
  let ?v2 = "snd (resolvePlayer True k s x v)"
  let ?v3 = "snd (resolveSchema True k x ?v2)"
  have n2: "SchemaCall u \<notin> set (calls ?v2)"
    using assms(2) by (simp add: calls_resolvePlayer)
  have c: "SchemaCall u \<in> set (calls ?v3)"
    using assms(1) n2 resolveData_world[of True k s x v]
    by (auto simp: calls_resolveGlobal split: if_splits)
  with n2 have miss: "cachedData True ?v2 (schemaCacheKey x) = None"
    by (simp add: calls_resolveSchema split: if_splits)
  have w: "snd (resolveData True k s x v) \<noteq> ?v2"
    using assms(1) n2 by auto
  have "store ?v3 (schemaCacheKey x)
          = Some (Serialized (SchemaPayload d), now ?v2 + CACHE_TTL_SECONDS)"
    using assms(3-6) miss by (intro store_resolveSchema) (simp_all add: resolvePlayer_fields)
  then show ?thesis
    using resolveData_world[of True k s x v] w
    by (auto simp: store_other_keys resolvePlayer_fields)
qed

lemma resolveData_global_entry:
  assumes "GlobalCall u \<in> set (calls (snd (resolveData True k s x v)))" "calls v = []"
    and "\<not> setThrows v (globalCacheKey x)"
    and "fetchGlobal v (globalPercentagesUrl x) = HttpResponse st (Json d)" "ok st"
  shows "store (snd (resolveData True k s x v)) (globalCacheKey x)
           = Some (Serialized (GlobalPayload d), now v + CACHE_TTL_SECONDS)"
proof -
  let ?v2 = "snd (resolvePlayer True k s x v)"
  let ?v3 = "snd (resolveSchema True k x ?v2)"
  let ?v4 = "snd (resolveGlobal True x ?v3)"
  have n3: "GlobalCall u \<notin> set (calls ?v3)" "GlobalCall u \<notin> set (calls ?v2)"
    using assms(2) by (simp_all add: calls_resolvePlayer calls_resolveSchema)
  then have w: "snd (resolveData True k s x v) = ?v4"
    using assms(1) resolveData_world[of True k s x v] by auto
  with assms(1) n3 have miss: "cachedData True ?v3 (globalCacheKey x) = None"
    by (simp add: calls_resolveGlobal split: if_splits)
  have "store ?v4 (globalCacheKey x)
          = Some (Serialized (GlobalPayload d), now ?v3 + CACHE_TTL_SECONDS)"
    using assms(3-5) miss
    by (intro store_resolveGlobal) (simp_all add: resolvePlayer_fields resolveSchema_fields)
  then show ?thesis
    by (simp add: w resolvePlayer_fields resolveSchema_fields)
qed

lemma store_resolveGlobal_falsy:
  assumes "\<not> setThrows v (globalCacheKey x)" "cachedData True v (globalCacheKey x) = None"
    and "fetchGlobal v (globalPercentagesUrl x) = HttpResponse st JsonFalsy" "ok st"
  shows "store (snd (resolveGlobal True x v)) (globalCacheKey x)
           = Some (Unparsable, now v + CACHE_TTL_SECONDS)"
  using assms
  by (simp add: resolveGlobal_def fetchGlobalPercentages_def Let_def cacheResult_def redis_set_def)

lemma resolveData_global_entry_falsy:
  assumes "GlobalCall u \<in> set (calls (snd (resolveData True k s x v)))" "calls v = []"
    and "\<not> setThrows v (globalCacheKey x)"
    and "fetchGlobal v (globalPercentagesUrl x) = HttpResponse st JsonFalsy" "ok st"
  shows "store (snd (resolveData True k s x v)) (globalCacheKey x)
           = Some (Unparsable, now v + CACHE_TTL_SECONDS)"
proof -
  let ?v2 = "snd (resolvePlayer True k s x v)"
  let ?v3 = "snd (resolveSchema True k x ?v2)"
  let ?v4 = "snd (resolveGlobal True x ?v3)"
  have n3: "GlobalCall u \<notin> set (calls ?v3)" "GlobalCall u \<notin> set (calls ?v2)"
    using assms(2) by (simp_all add: calls_resolvePlayer calls_resolveSchema)
  then have w: "snd (resolveData True k s x v) = ?v4"
    using assms(1) resolveData_world[of True k s x v] by auto
  with assms(1) n3 have miss: "cachedData True ?v3 (globalCacheKey x) = None"
    by (simp add: calls_resolveGlobal split: if_splits)
  have "store ?v4 (globalCacheKey x) = Some (Unparsable, now ?v3 + CACHE_TTL_SECONDS)"
    using assms(3-5) miss
    by (intro store_resolveGlobal_falsy) (simp_all add: resolvePlayer_fields resolveSchema_fields)
  then show ?thesis
    by (simp add: w resolvePlayer_fields resolveSchema_fields)
qed

lemma cachedData_unusable:
  "store v key = Some (Unparsable, e) \<Longrightarrow> cachedData r v key = None"
  by (simp add: cachedData_def redis_get_def)

lemma cachedData_expired:
  "store v key = Some (p, e) \<Longrightarrow> e \<le> now v \<Longrightarrow> cachedData r v key = None"
  by (simp add: cachedData_def redis_get_def)

lemma resolveData_store_other:
  assumes "key \<noteq> playerCacheKey s x" "key \<noteq> schemaCacheKey x" "key \<noteq> globalCacheKey x"
  shows "store (snd (resolveData r k s x v)) key = store v key"
  using assms resolveData_world[of r k s x v]
  by (auto simp: resolvePlayer_fields resolveSchema_fields resolveGlobal_fields)

text \<open>A request that finds a key in the cache issues no call for it.\<close>

lemma resolveData_player_hit:
  assumes "cachedData r v (playerCacheKey s x) \<noteq> None" "calls v = []"
  shows "PlayerCall u \<notin> set (calls (snd (resolveData r k s x v)))"
  using assms resolveData_world[of r k s x v]
  by (auto simp: calls_resolvePlayer calls_resolveSchema calls_resolveGlobal split: if_splits)

lemma resolveData_schema_hit:
  assumes "cachedData r v (schemaCacheKey x) \<noteq> None" "calls v = []"
  shows "SchemaCall u \<notin> set (calls (snd (resolveData r k s x v)))"
  using assms resolveData_world[of r k s x v]
  by (auto simp: calls_resolvePlayer calls_resolveSchema calls_resolveGlobal
        cachedData_other_keys split: if_splits)

lemma resolveData_global_hit:
  assumes "cachedData r v (globalCacheKey x) \<noteq> None" "calls v = []"
  shows "GlobalCall u \<notin> set (calls (snd (resolveData r k s x v)))"
  using assms resolveData_world[of r k s x v]
  by (auto simp: calls_resolvePlayer calls_resolveSchema calls_resolveGlobal
        cachedData_other_keys split: if_splits)

lemma resolveData_fields:
  "getThrows (snd (resolveData r k s x v)) = getThrows v"
  "redisClient (snd (resolveData r k s x v)) = redisClient v"
  "STEAM_API_KEY (snd (resolveData r k s x v)) = STEAM_API_KEY v"
  using resolveData_world[of r k s x v]
  by (auto simp: resolvePlayer_fields resolveSchema_fields resolveGlobal_fields
        resolvePlayer_client resolveSchema_client resolveGlobal_client)

lemmas cache_defs = playerCacheKey_def schemaCacheKey_def globalCacheKey_def
  CACHE_TTL_SECONDS_def asPlayerStats_def asSchema_def asGlobalPercentages_def

lemma resolveData_calls_fetch_through:
  assumes f: "fetchPlayer a = fetchPlayer b" "fetchSchema a = fetchSchema b"
             "fetchGlobal a = fetchGlobal b" "calls a = calls b"
    and a: "\<not> ra \<or> (\<forall>k. getThrows a k)"
    and b: "\<forall>k. \<not> getThrows b k" "\<forall>k. store b k = None"
  shows "calls (snd (resolveData ra k s x a)) = calls (snd (resolveData rb k s x b))"
proof -
  let ?a2 = "snd (resolvePlayer ra k s x a)" and ?b2 = "snd (resolvePlayer rb k s x b)"
  let ?a3 = "snd (resolveSchema ra k x ?a2)" and ?b3 = "snd (resolveSchema rb k x ?b2)"
  have ma: "\<And>v key. getThrows v = getThrows a \<Longrightarrow> cachedData ra v key = None"
    using a by (intro cachedData_unavailable) auto
  have mb1: "cachedData rb b (playerCacheKey s x) = None"
    using b by (intro cachedData_absent) simp_all
  have mb2: "cachedData rb ?b2 (schemaCacheKey x) = None"
    using b by (intro cachedData_absent) (simp_all add: resolvePlayer_fields key_distinct)
  have mb3: "cachedData rb ?b3 (globalCacheKey x) = None"
    using b by (intro cachedData_absent)
      (simp_all add: resolvePlayer_fields resolveSchema_fields key_distinct)
  have p: "fst (resolvePlayer ra k s x a) = fst (resolvePlayer rb k s x b)"
    using ma[of a] mb1 f(1) by (intro resolvePlayer_miss) simp_all
  have sc: "fst (resolveSchema ra k x ?a2) = fst (resolveSchema rb k x ?b2)"
    using ma[of ?a2] mb2 f(2) by (intro resolveSchema_miss) (simp_all add: resolvePlayer_fields)
  have c2: "calls ?a2 = calls ?b2"
    using ma[of a] mb1 f(4) by (simp add: calls_resolvePlayer)
  have c3: "calls ?a3 = calls ?b3"
    using ma[of ?a2] mb2 c2 by (simp add: calls_resolveSchema resolvePlayer_fields)
  have c4: "calls (snd (resolveGlobal ra x ?a3)) = calls (snd (resolveGlobal rb x ?b3))"
    using ma[of ?a3] mb3 c3
    by (simp add: calls_resolveGlobal resolvePlayer_fields resolveSchema_fields)
  show ?thesis
    unfolding resolveData_snd Let_def p sc
    using c2 c3 c4 by (simp split: outcome.split option.split)
qed

section \<open>The claims\<close>

subsection \<open>C1: one combined achievement for each schema entry\<close>

text \<open>
  C1. Take a request with its cookie, its \<open>appId\<close> and the API key set, whose player data
  (from the cache or from Steam) report success, whose schema data hold an achievement
  list \<open>sch\<close>, and whose global percentages were resolved. The handler answers with
  status 200 and a list \<open>r\<close> that has the length of \<open>sch\<close> and, reduced to the schema's
  fields, the very entries of \<open>sch\<close>, each as often as it stands there. In every
  element, \<open>achieved\<close> says whether the player's entry for that name has \<open>achieved = 1\<close>
  (false without an entry), \<open>unlocktime\<close> is that entry's (0 without one), and \<open>percent\<close>
  is the global entry's (100 without one, and 100 when the entry's percentage is \<open>null\<close>
  or not there). Should a list hold two entries for one name, the last one counts, as in
  \<open>new Map\<close>.
\<close>

theorem C1_combined:
  assumes "cookie req = Some steamId" "steamId \<noteq> []" "appIdParam req = Some appId" "appId \<noteq> []"
    and "STEAM_API_KEY w = Some steamApiKey" "steamApiKey \<noteq> []"
    and "getRedisClient w = (redis, w1)"
    and "resolvePlayer redis steamApiKey steamId appId w1 = (Continue pd, w2)"
    and "playerstats pd = Some ps" "success ps"
    and "resolveSchema redis steamApiKey appId w2 = (Continue sd, w3)"
    and "game sd = Some g" "schemaAchievementsOf sd = Some sch"
    and "resolveGlobal redis appId w3 = (Continue gd, w4)"
  shows "\<exists>r. GET req w = (\<lparr>status = 200, body = AchievementsBody (gameName g) steamId r\<rparr>, w4) \<and>
           length r = length sch \<and>
           mset (map AchievementSchema.truncate r) = mset sch \<and>
           (\<forall>c \<in> set r.
              achieved c = (case find (\<lambda>p. apiname p = name c) (rev (playerAchievementsOf ps)) of
                              None \<Rightarrow> False | Some p \<Rightarrow> p_achieved p = 1) \<and>
              unlocktime c = (case find (\<lambda>p. apiname p = name c) (rev (playerAchievementsOf ps)) of
                              None \<Rightarrow> 0 | Some p \<Rightarrow> p_unlocktime p) \<and>
              percent c = (case find (\<lambda>a. g_name a = name c) (rev (globalAchievementsOf gd)) of
                              None \<Rightarrow> Num 100
                            | Some a \<Rightarrow> if g_percent a = Nullish then Num 100 else g_percent a))"
proof -
  let ?c = "combinedAchievements sch (playerAchievementsOf ps) (globalAchievementsOf gd)"
  let ?r = "array_sort compareAchievements ?c"
  have d: "resolveData redis steamApiKey steamId appId w1 =
           (Continue \<lparr>d_player = ps, d_game = g, d_schema = sch, d_global = gd\<rparr>, w4)"
    using assms(8-14) by (rule resolveData_Continue)
  have "GET req w = (\<lparr>status = 200, body = AchievementsBody (gameName g) steamId ?r\<rparr>, w4)"
    using GET_200[OF assms(1-7) d] by (simp add: json_def)
  moreover have "length ?r = length sch"
    by (simp add: length_array_sort combinedAchievements_def)
  moreover have "mset (map AchievementSchema.truncate ?r) = mset sch"
  proof -
    have "mset (map AchievementSchema.truncate ?r) = image_mset AchievementSchema.truncate (mset ?r)"
      by simp
    also have "\<dots> = image_mset AchievementSchema.truncate (mset ?c)"
      by (simp only: mset_array_sort)
    also have "\<dots> = mset (map AchievementSchema.truncate ?c)" by simp
    finally show ?thesis by (simp only: combined_truncate)
  qed
  moreover have "\<forall>c \<in> set ?r.
              achieved c = (case find (\<lambda>p. apiname p = name c) (rev (playerAchievementsOf ps)) of
                              None \<Rightarrow> False | Some p \<Rightarrow> p_achieved p = 1) \<and>
              unlocktime c = (case find (\<lambda>p. apiname p = name c) (rev (playerAchievementsOf ps)) of
                              None \<Rightarrow> 0 | Some p \<Rightarrow> p_unlocktime p) \<and>
              percent c = (case find (\<lambda>a. g_name a = name c) (rev (globalAchievementsOf gd)) of
                              None \<Rightarrow> Num 100
                            | Some a \<Rightarrow> if g_percent a = Nullish then Num 100 else g_percent a)"
    using combined_member[of _ sch "playerAchievementsOf ps" "globalAchievementsOf gd"]
    by (simp only: set_array_sort) blast
  ultimately show ?thesis by blast
qed

theorem C1_combined_witness:
  "\<exists>r. fst (GET tf2_request tf2_world) =
          \<lparr>status = 200, body = AchievementsBody ''Team Fortress 2'' ''7656'' r\<rparr> \<and>
        length r = 2 \<and>
        map name r = [''TF_PLAY_GAME'', ''TF_GET_KILL''] \<and>
        map achieved r = [True, False] \<and> map percent r = [Num 80, Num 40]"
proof -
  let ?w1 = "snd (getRedisClient tf2_world)"
  let ?w2 = "snd (resolvePlayer False ''KEY'' ''7656'' ''440'' ?w1)"
  let ?w3 = "snd (resolveSchema False ''KEY'' ''440'' ?w2)"
  let ?w4 = "snd (resolveGlobal False ''440'' ?w3)"
  let ?ps = "\<lparr>steamID = Some ''7656'', ps_gameName = Some ''Team Fortress 2'',
        ps_achievements = Some
          [\<lparr>apiname = ''TF_PLAY_GAME'', p_achieved = 1, p_unlocktime = 1700000000\<rparr>,
           \<lparr>apiname = ''TF_GET_KILL'', p_achieved = 0, p_unlocktime = 0\<rparr>],
        success = True, message = None\<rparr>"
  let ?sch = "[\<lparr>name = ''TF_PLAY_GAME'', defaultvalue = 0, displayName = ''Play'', hidden = 0,
            description = ''Play a game'', icon = ''a.jpg'', icongray = ''b.jpg''\<rparr>,
           \<lparr>name = ''TF_GET_KILL'', defaultvalue = 0, displayName = ''Kill'', hidden = 0,
            description = ''Get a kill'', icon = ''c.jpg'', icongray = ''d.jpg''\<rparr>]"
  let ?g = "\<lparr>gameName = ''Team Fortress 2'', gameVersion = ''1'',
        availableGameStats = Some \<lparr>gs_achievements = Some ?sch\<rparr>\<rparr>"
  have h1: "cookie tf2_request = Some ''7656''" and h2: "''7656'' \<noteq> []"
    and h3: "appIdParam tf2_request = Some ''440''" and h4: "''440'' \<noteq> []"
    and h5: "STEAM_API_KEY tf2_world = Some ''KEY''" and h6: "''KEY'' \<noteq> []"
    by (simp_all add: tf2_defs)
  have h7: "getRedisClient tf2_world = (False, ?w1)"
    by (simp add: getRedisClient_def tf2_defs)
  have h8: "resolvePlayer False ''KEY'' ''7656'' ''440'' ?w1 = (Continue tf2_player, ?w2)"
    by (simp add: handler_defs tf2_defs)
  have h9: "playerstats tf2_player = Some ?ps" and h10: "success ?ps"
    by (simp_all add: tf2_defs)
  have h11: "resolveSchema False ''KEY'' ''440'' ?w2 = (Continue tf2_schema, ?w3)"
    by (simp add: handler_defs tf2_defs)
  have h12: "game tf2_schema = Some ?g" and h13: "schemaAchievementsOf tf2_schema = Some ?sch"
    by (simp_all add: tf2_defs schemaAchievementsOf_def)
  have h14: "resolveGlobal False ''440'' ?w3 = (Continue tf2_global, ?w4)"
    by (simp add: handler_defs tf2_defs)
  from C1_combined[OF h1 h2 h3 h4 h5 h6 h7 h8 h9 h10 h11 h12 h13 h14]
  obtain r where r: "GET tf2_request tf2_world =
      (\<lparr>status = 200, body = AchievementsBody (gameName ?g) ''7656'' r\<rparr>, ?w4)"
    "length r = length ?sch" by blast
  have "fst (GET tf2_request tf2_world) =
  \<lparr>status = 200, body = AchievementsBody ''Team Fortress 2'' ''7656''
     [\<lparr>name = ''TF_PLAY_GAME'', defaultvalue = 0, displayName = ''Play'', hidden = 0,
            description = ''Play a game'', icon = ''a.jpg'', icongray = ''b.jpg'',
            achieved = True, unlocktime = 1700000000, percent = Num 80\<rparr>,
      \<lparr>name = ''TF_GET_KILL'', defaultvalue = 0, displayName = ''Kill'', hidden = 0,
            description = ''Get a kill'', icon = ''c.jpg'', icongray = ''d.jpg'',
            achieved = False, unlocktime = 0, percent = Num 40\<rparr>]\<rparr>"
    by (simp add: handler_defs combine_defs tf2_defs)
  with r have "r = [\<lparr>name = ''TF_PLAY_GAME'', defaultvalue = 0, displayName = ''Play'', hidden = 0,
            description = ''Play a game'', icon = ''a.jpg'', icongray = ''b.jpg'',
            achieved = True, unlocktime = 1700000000, percent = Num 80\<rparr>,
      \<lparr>name = ''TF_GET_KILL'', defaultvalue = 0, displayName = ''Kill'', hidden = 0,
            description = ''Get a kill'', icon = ''c.jpg'', icongray = ''d.jpg'',
            achieved = False, unlocktime = 0, percent = Num 40\<rparr>]" by simp
  with r show ?thesis by simp
qed

subsection \<open>C2: the order of the returned list\<close>

text \<open>
  C2, as stated, has the percentages of a group ascending. The comparator reads a
  percentage that is not a number as 100 (\<open>typeof a.percent === 'number' ? a.percent :
  100\<close>). With a player who has unlocked nothing, \<open>TF_PLAY_GAME\<close> at the string \<open>5\<close> and
  \<open>TF_GET_KILL\<close> at the number 70, the handler returns \<open>TF_GET_KILL\<close> first: 70 stands
  before 5 in one group.
\<close>

theorem C2_counterexample:
  "fst (GET tf2_request tf2_text_percent) =
     \<lparr>status = 200, body = AchievementsBody ''Team Fortress 2'' ''7656''
        [\<lparr>name = ''TF_GET_KILL'', defaultvalue = 0, displayName = ''Kill'', hidden = 0,
          description = ''Get a kill'', icon = ''c.jpg'', icongray = ''d.jpg'',
          achieved = False, unlocktime = 0, percent = Num 70\<rparr>,
         \<lparr>name = ''TF_PLAY_GAME'', defaultvalue = 0, displayName = ''Play'', hidden = 0,
          description = ''Play a game'', icon = ''a.jpg'', icongray = ''b.jpg'',
          achieved = False, unlocktime = 0, percent = Str ''5''\<rparr>]\<rparr> \<and>
   \<not> percent_le (Num 70) (Str ''5'')"
  by (simp add: handler_defs combine_defs tf2_defs tf2_text_percent_def tf2_newcomer_def
        comparedPercent_def percent_le_def numeric_def digit_def)

text \<open>
  C2 (amended). Whenever the handler answers with an achievements list \<open>r\<close>: of two
  neighbours the first is achieved if the second is; with equal flags the first's
  percentage, read as the comparator reads it (the number, or 100 for a percentage that
  is not a number), is not the greater one, so that of two neighbours with equal flags
  whose percentages are numbers the first's is not the greater one; and the elements of
  \<open>r\<close> with one flag and one percentage, and likewise those with one flag and one
  percentage as the comparator reads it, stand in the order they have in the combined
  list before sorting, which is the schema's order.
\<close>

theorem C2_sorted:
  assumes "GET req w = (resp, w')" and "body resp = AchievementsBody gn sid r"
  shows "(\<forall>i. Suc i < length r \<longrightarrow>
            achieved (r ! i) \<ge> achieved (r ! Suc i) \<and>
            (achieved (r ! i) = achieved (r ! Suc i) \<longrightarrow>
               comparedPercent (r ! i) \<le> comparedPercent (r ! Suc i)) \<and>
            (\<forall>x y. achieved (r ! i) = achieved (r ! Suc i) \<and>
                   percent (r ! i) = Num x \<and> percent (r ! Suc i) = Num y \<longrightarrow> x \<le> y)) \<and>
         (\<exists>redis w1 steamApiKey appId d.
            getRedisClient w = (redis, w1) \<and> STEAM_API_KEY w = Some steamApiKey \<and>
            appIdParam req = Some appId \<and>
            resolveData redis steamApiKey sid appId w1 = (Continue d, w') \<and>
            map AchievementSchema.truncate
              (combinedAchievements (d_schema d) (playerAchievementsOf (d_player d))
                 (globalAchievementsOf (d_global d))) = d_schema d \<and>
            (\<forall>a p. filter (\<lambda>c. achieved c = a \<and> percent c = p) r =
                   filter (\<lambda>c. achieved c = a \<and> percent c = p)
                     (combinedAchievements (d_schema d) (playerAchievementsOf (d_player d))
                        (globalAchievementsOf (d_global d)))) \<and>
            (\<forall>a q. filter (\<lambda>c. achieved c = a \<and> comparedPercent c = q) r =
                   filter (\<lambda>c. achieved c = a \<and> comparedPercent c = q)
                     (combinedAchievements (d_schema d) (playerAchievementsOf (d_player d))
                        (globalAchievementsOf (d_global d)))))"
proof -
  from GET_achievements[OF assms] obtain redis w1 steamApiKey appId d where
    g: "getRedisClient w = (redis, w1)" "STEAM_API_KEY w = Some steamApiKey"
       "appIdParam req = Some appId"
       "resolveData redis steamApiKey sid appId w1 = (Continue d, w')"
    and r: "r = array_sort compareAchievements
                (combinedAchievements (d_schema d) (playerAchievementsOf (d_player d))
                   (globalAchievementsOf (d_global d)))"
    by blast
  have s: "sorted_wrt precedes r" unfolding r by (rule sorted_array_sort)
  have adj: "\<forall>i. Suc i < length r \<longrightarrow>
            achieved (r ! i) \<ge> achieved (r ! Suc i) \<and>
            (achieved (r ! i) = achieved (r ! Suc i) \<longrightarrow>
               comparedPercent (r ! i) \<le> comparedPercent (r ! Suc i)) \<and>
            (\<forall>x y. achieved (r ! i) = achieved (r ! Suc i) \<and>
                   percent (r ! i) = Num x \<and> percent (r ! Suc i) = Num y \<longrightarrow> x \<le> y)"
  proof (intro allI impI)
    fix i assume "Suc i < length r"
    with s have "precedes (r ! i) (r ! Suc i)"
      by (simp add: sorted_wrt_iff_nth_less)
    then show "achieved (r ! i) \<ge> achieved (r ! Suc i) \<and>
            (achieved (r ! i) = achieved (r ! Suc i) \<longrightarrow>
               comparedPercent (r ! i) \<le> comparedPercent (r ! Suc i)) \<and>
            (\<forall>x y. achieved (r ! i) = achieved (r ! Suc i) \<and>
                   percent (r ! i) = Num x \<and> percent (r ! Suc i) = Num y \<longrightarrow> x \<le> y)"
      by (rule precedes_adjacent)
  qed
  have st: "\<forall>a p. filter (\<lambda>c. achieved c = a \<and> percent c = p) r =
                   filter (\<lambda>c. achieved c = a \<and> percent c = p)
                     (combinedAchievements (d_schema d) (playerAchievementsOf (d_player d))
                        (globalAchievementsOf (d_global d)))"
    unfolding r by (simp only: stable_percent) blast
  have sk: "\<forall>a q. filter (\<lambda>c. achieved c = a \<and> comparedPercent c = q) r =
                   filter (\<lambda>c. achieved c = a \<and> comparedPercent c = q)
                     (combinedAchievements (d_schema d) (playerAchievementsOf (d_player d))
                        (globalAchievementsOf (d_global d)))"
    unfolding r by (simp only: stable_comparedPercent) blast
  from adj st sk g combined_truncate show ?thesis by blast
qed

theorem C2_sorted_witness:
  "\<exists>r. body (fst (GET tf2_request tf2_rarity_refused))
          = AchievementsBody ''Team Fortress 2'' ''7656'' r \<and>
        map name r = [''TF_PLAY_GAME'', ''TF_GET_KILL''] \<and>
        map achieved r = [True, False] \<and> map percent r = [Num 100, Num 100] \<and>
        achieved (r ! 0) \<ge> achieved (r ! Suc 0)"
proof -
  let ?w = "tf2_rarity_refused"
  let ?r = "[\<lparr>name = ''TF_PLAY_GAME'', defaultvalue = 0, displayName = ''Play'', hidden = 0,
            description = ''Play a game'', icon = ''a.jpg'', icongray = ''b.jpg'',
            achieved = True, unlocktime = 1700000000, percent = Num 100\<rparr>,
      \<lparr>name = ''TF_GET_KILL'', defaultvalue = 0, displayName = ''Kill'', hidden = 0,
            description = ''Get a kill'', icon = ''c.jpg'', icongray = ''d.jpg'',
            achieved = False, unlocktime = 0, percent = Num 100\<rparr>]"
  have e: "GET tf2_request ?w = (fst (GET tf2_request ?w), snd (GET tf2_request ?w))" by simp
  have b: "body (fst (GET tf2_request ?w)) = AchievementsBody ''Team Fortress 2'' ''7656'' ?r"
    by (simp add: handler_defs combine_defs tf2_defs tf2_rarity_refused_def comparedPercent_def)
  from C2_sorted[OF e b]
  have "\<forall>i. Suc i < length ?r \<longrightarrow> achieved (?r ! i) \<ge> achieved (?r ! Suc i) \<and>
            (achieved (?r ! i) = achieved (?r ! Suc i) \<longrightarrow>
               comparedPercent (?r ! i) \<le> comparedPercent (?r ! Suc i)) \<and>
            (\<forall>x y. achieved (?r ! i) = achieved (?r ! Suc i) \<and>
                   percent (?r ! i) = Num x \<and> percent (?r ! Suc i) = Num y \<longrightarrow> x \<le> y)"
    by (rule conjunct1)
  then have "Suc 0 < length ?r \<longrightarrow> achieved (?r ! 0) \<ge> achieved (?r ! Suc 0)" by blast
  then have "achieved (?r ! 0) \<ge> achieved (?r ! Suc 0)" by simp
  with b show ?thesis by simp
qed

subsection \<open>C3: a failing rarity fetch\<close>

text \<open>
  C3 does not hold for two of the three failures it names. When \<open>fetch\<close> of the global
  percentages rejects (a transport error), or the response is \<open>ok\<close> and its body is not
  JSON, the exception reaches the outer \<open>catch\<close> and the request fails with status 500.
  Only a response that is not \<open>ok\<close> is taken as an empty list, and then every achievement
  has \<open>percent = 100\<close>. In the scenario, with everything else in order:
\<close>

theorem C3_rarity_failure:
  "fst (GET tf2_request tf2_rarity_unreachable)
     = \<lparr>status = 500, body = Message ''An internal server error occurred.''\<rparr> \<and>
   fst (GET tf2_request tf2_rarity_garbled)
     = \<lparr>status = 500, body = Message ''An internal server error occurred.''\<rparr> \<and>
   fst (GET tf2_request tf2_rarity_refused)
     = \<lparr>status = 200, body = AchievementsBody ''Team Fortress 2'' ''7656''
         [\<lparr>name = ''TF_PLAY_GAME'', defaultvalue = 0, displayName = ''Play'', hidden = 0,
           description = ''Play a game'', icon = ''a.jpg'', icongray = ''b.jpg'',
           achieved = True, unlocktime = 1700000000, percent = Num 100\<rparr>,
          \<lparr>name = ''TF_GET_KILL'', defaultvalue = 0, displayName = ''Kill'', hidden = 0,
           description = ''Get a kill'', icon = ''c.jpg'', icongray = ''d.jpg'',
           achieved = False, unlocktime = 0, percent = Num 100\<rparr>]\<rparr>"
  by (simp add: handler_defs combine_defs tf2_defs tf2_rarity_unreachable_def
        tf2_rarity_garbled_def tf2_rarity_refused_def)

subsection \<open>C4: a failing cache\<close>

text \<open>
  C4. When the Redis connection cannot be established, or when the client is there and
  every \<open>get\<close> and every \<open>set\<close> rejects, the handler gives the response it gives with a
  working, empty cache, and issues the same upstream requests: a cache failure is a
  cache miss, and no response mentions it.
\<close>

theorem C4_cache_failure:
  assumes "(redisClient w \<noteq> Some True \<and> \<not> connectOk w) \<or> (\<forall>k. getThrows w k \<and> setThrows w k)"
  shows "fst (GET req w) =
           fst (GET req (w\<lparr>redisClient := Some True, getThrows := (\<lambda>k. False),
                            setThrows := (\<lambda>k. False), store := Map.empty\<rparr>)) \<and>
         calls (snd (GET req w)) =
           calls (snd (GET req (w\<lparr>redisClient := Some True, getThrows := (\<lambda>k. False),
                                   setThrows := (\<lambda>k. False), store := Map.empty\<rparr>)))"
proof -
  let ?b = "w\<lparr>redisClient := Some True, getThrows := (\<lambda>k. False),
              setThrows := (\<lambda>k. False), store := Map.empty\<rparr>"
  obtain ra a where ga: "getRedisClient w = (ra, a)" by (cases "getRedisClient w")
  have gb: "getRedisClient ?b = (True, ?b)" by (simp add: getRedisClient_def)
  have a: "\<not> ra \<or> (\<forall>k. getThrows a k)"
    using assms ga by (auto simp: getRedisClient_def split: if_splits)
  have f: "fetchPlayer a = fetchPlayer ?b" "fetchSchema a = fetchSchema ?b"
          "fetchGlobal a = fetchGlobal ?b" "calls a = calls ?b"
    using getRedisClient_fields[of w] ga by simp_all
  have d: "\<And>k s x. fst (resolveData ra k s x a) = fst (resolveData True k s x ?b)"
    using f a by (intro resolveData_fetch_through) simp_all
  have t: "\<And>k s x. fst (tryBlock ra k s x a) = fst (tryBlock True k s x ?b)"
    unfolding tryBlock_fst d ..
  have cl: "\<And>k s x. calls (snd (resolveData ra k s x a)) = calls (snd (resolveData True k s x ?b))"
    using f a by (intro resolveData_calls_fetch_through) simp_all
  show ?thesis
  proof (cases "falsy (cookie req) \<or> falsy (appIdParam req) \<or> falsy (STEAM_API_KEY w)")
    case True
    then show ?thesis
      by (auto simp: GET_def falsy_def split: option.splits)
  next
    case False
    then obtain s x k where v: "cookie req = Some s" "s \<noteq> []" "appIdParam req = Some x" "x \<noteq> []"
      "STEAM_API_KEY w = Some k" "k \<noteq> []"
      by (auto simp: falsy_def split: option.splits)
    have vb: "STEAM_API_KEY ?b = Some k" using v by simp
    have "fst (GET req w) = (case fst (tryBlock ra k s x a) of
             Some r \<Rightarrow> r | None \<Rightarrow> json 500 (Message ''An internal server error occurred.''))"
      by (simp add: GET_valid[OF v ga] split: prod.split option.split)
    moreover have "fst (GET req ?b) = (case fst (tryBlock True k s x ?b) of
             Some r \<Rightarrow> r | None \<Rightarrow> json 500 (Message ''An internal server error occurred.''))"
      by (simp add: GET_valid[OF v(1-4) vb v(6) gb] split: prod.split option.split)
    ultimately have "fst (GET req w) = fst (GET req ?b)" by (simp only: t)
    moreover have "calls (snd (GET req w)) = calls (snd (GET req ?b))"
      unfolding GET_world[OF v ga] GET_world[OF v(1-4) vb v(6) gb] by (rule cl)
    ultimately show ?thesis ..
  qed
qed

theorem C4_cache_failure_witness:
  "fst (GET tf2_request (tf2_world\<lparr>redisClient := Some True, getThrows := (\<lambda>k. True),
                                    setThrows := (\<lambda>k. True)\<rparr>))
     = fst (GET tf2_request (tf2_world\<lparr>redisClient := Some True\<rparr>)) \<and>
   status (fst (GET tf2_request (tf2_world\<lparr>redisClient := Some True\<rparr>))) = 200"
proof -
  let ?w = "tf2_world\<lparr>redisClient := Some True, getThrows := (\<lambda>k. True), setThrows := (\<lambda>k. True)\<rparr>"
  have h: "(redisClient ?w \<noteq> Some True \<and> \<not> connectOk ?w) \<or> (\<forall>k. getThrows ?w k \<and> setThrows ?w k)"
    by simp
  have e: "?w\<lparr>redisClient := Some True, getThrows := (\<lambda>k. False),
              setThrows := (\<lambda>k. False), store := Map.empty\<rparr> = tf2_world\<lparr>redisClient := Some True\<rparr>"
    by (simp add: tf2_world_def)
  have "status (fst (GET tf2_request (tf2_world\<lparr>redisClient := Some True\<rparr>))) = 200"
    by (simp add: handler_defs tf2_defs cache_defs)
  with C4_cache_failure[OF h, of tf2_request] e show ?thesis by simp
qed

subsection \<open>C5: the token id\<close>

text \<open>
  C5. For an \<open>appId\<close> in the range of \<open>uint32\<close>, step 3 of \<open>handleMint\<close> does not throw, and
  the token id is the digest \<open>keccak256\<close> gives for the packed data, read as a big-endian
  unsigned integer. The packed data are four bytes whose big-endian value is \<open>appId\<close>,
  followed by the bytes of the achievement's name, with nothing in between. A digest of 32
  bytes gives a token id below \<open>2 ^ 256\<close>. The token id is a function of \<open>appId\<close> and the
  name alone (\<open>generateTokenId\<close> has no other argument but the hash function), so deriving
  it again gives the same value, and it is the id \<open>handleMint\<close> passes to the contract.
\<close>

theorem C5_token_id:
  assumes "0 \<le> appId" and "appId < 2 ^ 32"
  shows "\<exists>b. numberToHex4 appId = Some b \<and> length b = 4 \<and> int (hexToBigInt b) = appId \<and>
           encodePacked appId achievementApiName = Some (b @ stringToBytes achievementApiName) \<and>
           generateTokenId keccak256 appId achievementApiName
             = Some (hexToBigInt (keccak256 (b @ stringToBytes achievementApiName))) \<and>
           (length (keccak256 (b @ stringToBytes achievementApiName)) = 32 \<longrightarrow>
              hexToBigInt (keccak256 (b @ stringToBytes achievementApiName)) < 2 ^ 256) \<and>
           (appId \<noteq> 0 \<and> accountAddress \<noteq> [] \<longrightarrow>
              handleMint keccak256 (Some appId) True (Some accountAddress) TARGET_CHAIN_ID
                  achievementApiName
                = WriteContract accountAddress
                    (hexToBigInt (keccak256 (b @ stringToBytes achievementApiName)))
                    appId achievementApiName)"
proof -
  from numberToHex4_value[OF assms] obtain b where
    b: "numberToHex4 appId = Some b" "length b = 4" "int (hexToBigInt b) = appId" by blast
  have p: "encodePacked appId achievementApiName = Some (b @ stringToBytes achievementApiName)"
    by (simp add: encodePacked_def b)
  have t: "generateTokenId keccak256 appId achievementApiName
             = Some (hexToBigInt (keccak256 (b @ stringToBytes achievementApiName)))"
    by (simp add: generateTokenId_def p)
  have "length (keccak256 (b @ stringToBytes achievementApiName)) = 32 \<longrightarrow>
          hexToBigInt (keccak256 (b @ stringToBytes achievementApiName)) < 2 ^ 256"
  proof
    assume l: "length (keccak256 (b @ stringToBytes achievementApiName)) = 32"
    have "(256::nat) ^ 32 = 2 ^ 256" by simp
    with hexToBigInt_bound[of "keccak256 (b @ stringToBytes achievementApiName)"] l
    show "hexToBigInt (keccak256 (b @ stringToBytes achievementApiName)) < 2 ^ 256" by simp
  qed
  moreover have "appId \<noteq> 0 \<and> accountAddress \<noteq> [] \<longrightarrow>
              handleMint keccak256 (Some appId) True (Some accountAddress) TARGET_CHAIN_ID
                  achievementApiName
                = WriteContract accountAddress
                    (hexToBigInt (keccak256 (b @ stringToBytes achievementApiName)))
                    appId achievementApiName"
    using handleMint_ready[OF _ _ t] by blast
  ultimately show ?thesis using b p t by blast
qed

theorem C5_token_id_witness:
  "(0::int) \<le> 440 \<and> (440::int) < 2 ^ 32 \<and>
   generateTokenId (\<lambda>bs. bs) 440 ''TF'' = Some (hexToBigInt ([0, 0, 1, 184] @ stringToBytes ''TF'')) \<and>
   hexToBigInt [0, 0, 1, 184] = 440"
proof -
  have h: "(0::int) \<le> 440" "(440::int) < 2 ^ 32" by simp_all
  from C5_token_id[OF h, of "''TF''" "\<lambda>bs. bs"]
  obtain b where
    b: "numberToHex4 440 = Some b" "int (hexToBigInt b) = 440"
       "generateTokenId (\<lambda>bs. bs) 440 ''TF'' = Some (hexToBigInt (b @ stringToBytes ''TF''))"
    by blast
  have "(440 :: byte) = 184" by simp
  with b(1) have "b = [0, 0, 1, 184]" by (simp add: numberToHex4_def)
  with b h show ?thesis by simp
qed

subsection \<open>C6: the watermark over a sequence of cycles\<close>

text \<open>
  C6, as stated, says that a cycle that fails leaves \<open>lastProcessedBlock\<close> as it was. The
  cold-start cycle is the exception: the seed is assigned before the logs are fetched,
  so a first cycle whose \<open>getLogs\<close> rejects, with the head at block 1000, fails and ends
  with the watermark 900 where there was none.
\<close>

theorem C6_counterexample:
  "failed (pollForEvents None (chain_of 1000 RpcError)) \<and>
   after (pollForEvents None (chain_of 1000 RpcError)) = Some 900 \<and>
   after (pollForEvents None (chain_of 1000 RpcError)) \<noteq> None"
  by (simp add: worker_defs chain_of_def)

text \<open>
  C6 (amended). Over any sequence of polling cycles the watermark never decreases (no
  watermark counting as below every block number), and every cycle is \<open>pollForEvents\<close> on
  the watermark the cycle before left.

  A cycle that starts with a watermark \<open>b\<close> leaves it unchanged when it fails, and changes
  it only when it did not fail and the log fetch for the window \<open>[b + 1, hi]\<close> succeeded,
  the new watermark being the upper bound \<open>hi > b\<close>; and when the head is beyond \<open>b\<close> and
  the log fetch for the window succeeds, the cycle does not fail and the watermark is the
  window's upper bound.

  A cold-start cycle that fails leaves no watermark when the head query failed, and the
  seed when the log fetch failed. A cold-start cycle with the head at a block above 0
  whose log fetch succeeds does not fail, has fetched the window from the seed's
  successor to the head, and leaves the head, the window's upper bound, as watermark.

  For every cycle, with or without a watermark, where \<open>seeded\<close> is the watermark the
  cycle works with (the stored one, or the seed): a failing head query fails the cycle
  and leaves the watermark as it was; with the head not beyond \<open>seeded\<close> the cycle
  fetches nothing, does not fail and leaves \<open>seeded\<close>; otherwise it fetches the window
  \<open>[seeded + 1, min (seeded + 500) head]\<close>, and it fails and leaves \<open>seeded\<close> when the
  fetch fails, and does not fail and leaves the window's upper bound when the fetch
  succeeds. Processing the logs cannot fail a cycle: \<open>processLogs\<close> catches what decoding
  a log throws.
\<close>

theorem C6_watermark:
  "sorted_wrt wm_le (watermarks w cs) \<and>
   (\<forall>i<length cs.
      let before = watermarks w cs ! i; r = runCycles w cs ! i in
        r = pollForEvents before (cs ! i) \<and> watermarks w cs ! Suc i = after r \<and>
        (\<forall>b. before = Some b \<longrightarrow>
           (failed r \<longrightarrow> after r = Some b) \<and>
           (after r \<noteq> Some b \<longrightarrow>
              \<not> failed r \<and>
              (\<exists>hi logs. query r = Some (b + 1, hi) \<and> getLogs (cs ! i) (b + 1) hi = RpcOk logs \<and>
                 after r = Some hi \<and> b < hi)) \<and>
           (\<forall>head logs. getBlockNumber (cs ! i) = RpcOk head \<and> b < head \<and>
                 getLogs (cs ! i) (b + 1) (min (b + 500) head) = RpcOk logs \<longrightarrow>
                 \<not> failed r \<and> after r = Some (min (b + 500) head))) \<and>
        (before = None \<and> failed r \<longrightarrow>
           (getBlockNumber (cs ! i) = RpcError \<and> after r = None) \<or>
           (\<exists>head. getBlockNumber (cs ! i) = RpcOk head \<and>
              after r = Some (if head > 100 then head - 100 else 0))) \<and>
        (before = None \<longrightarrow>
           (\<forall>head logs. getBlockNumber (cs ! i) = RpcOk head \<and> 0 < head \<and>
              getLogs (cs ! i) ((if head > 100 then head - 100 else 0) + 1) head = RpcOk logs \<longrightarrow>
              \<not> failed r \<and>
              query r = Some ((if head > 100 then head - 100 else 0) + 1, head) \<and>
              after r = Some head)) \<and>
        (getBlockNumber (cs ! i) = RpcError \<longrightarrow>
           failed r \<and> query r = None \<and> after r = before) \<and>
        (\<forall>head. getBlockNumber (cs ! i) = RpcOk head \<longrightarrow>
           (head \<le> seeded before head \<longrightarrow>
              \<not> failed r \<and> query r = None \<and> after r = Some (seeded before head)) \<and>
           (seeded before head < head \<longrightarrow>
              query r = Some (seeded before head + 1, min (seeded before head + 500) head) \<and>
              (getLogs (cs ! i) (seeded before head + 1) (min (seeded before head + 500) head)
                 = RpcError \<longrightarrow>
                 failed r \<and> after r = Some (seeded before head)) \<and>
              (\<forall>logs. getLogs (cs ! i) (seeded before head + 1)
                        (min (seeded before head + 500) head) = RpcOk logs \<longrightarrow>
                 \<not> failed r \<and> after r = Some (min (seeded before head + 500) head)))))"
proof (intro conjI allI impI)
  show "sorted_wrt wm_le (watermarks w cs)" by (rule watermarks_sorted)
next
  fix i assume i: "i < length cs"
  from runCycles_nth[OF i, of w]
  have r: "runCycles w cs ! i = pollForEvents (watermarks w cs ! i) (cs ! i)"
    and n: "watermarks w cs ! Suc i = after (runCycles w cs ! i)" by simp_all
  have n': "watermarks w cs ! Suc i = after (pollForEvents (watermarks w cs ! i) (cs ! i))"
    using n unfolding r .
  show "let before = watermarks w cs ! i; r = runCycles w cs ! i in
        r = pollForEvents before (cs ! i) \<and> watermarks w cs ! Suc i = after r \<and>
        (\<forall>b. before = Some b \<longrightarrow>
           (failed r \<longrightarrow> after r = Some b) \<and>
           (after r \<noteq> Some b \<longrightarrow>
              \<not> failed r \<and>
              (\<exists>hi logs. query r = Some (b + 1, hi) \<and> getLogs (cs ! i) (b + 1) hi = RpcOk logs \<and>
                 after r = Some hi \<and> b < hi)) \<and>
           (\<forall>head logs. getBlockNumber (cs ! i) = RpcOk head \<and> b < head \<and>
                 getLogs (cs ! i) (b + 1) (min (b + 500) head) = RpcOk logs \<longrightarrow>
                 \<not> failed r \<and> after r = Some (min (b + 500) head))) \<and>
        (before = None \<and> failed r \<longrightarrow>
           (getBlockNumber (cs ! i) = RpcError \<and> after r = None) \<or>
           (\<exists>head. getBlockNumber (cs ! i) = RpcOk head \<and>
              after r = Some (if head > 100 then head - 100 else 0))) \<and>
        (before = None \<longrightarrow>
           (\<forall>head logs. getBlockNumber (cs ! i) = RpcOk head \<and> 0 < head \<and>
              getLogs (cs ! i) ((if head > 100 then head - 100 else 0) + 1) head = RpcOk logs \<longrightarrow>
              \<not> failed r \<and>
              query r = Some ((if head > 100 then head - 100 else 0) + 1, head) \<and>
              after r = Some head)) \<and>
        (getBlockNumber (cs ! i) = RpcError \<longrightarrow>
           failed r \<and> query r = None \<and> after r = before) \<and>
        (\<forall>head. getBlockNumber (cs ! i) = RpcOk head \<longrightarrow>
           (head \<le> seeded before head \<longrightarrow>
              \<not> failed r \<and> query r = None \<and> after r = Some (seeded before head)) \<and>
           (seeded before head < head \<longrightarrow>
              query r = Some (seeded before head + 1, min (seeded before head + 500) head) \<and>
              (getLogs (cs ! i) (seeded before head + 1) (min (seeded before head + 500) head)
                 = RpcError \<longrightarrow>
                 failed r \<and> after r = Some (seeded before head)) \<and>
              (\<forall>logs. getLogs (cs ! i) (seeded before head + 1)
                        (min (seeded before head + 500) head) = RpcOk logs \<longrightarrow>
                 \<not> failed r \<and> after r = Some (min (seeded before head + 500) head))))"
    unfolding Let_def r
    by (intro conjI refl n' poll_warm poll_cold poll_cold_ok poll_head_error poll_head_known)
qed

theorem C6_watermark_witness:
  "sorted_wrt wm_le
     (watermarks None [chain_down, chain_of 1000 (RpcOk []), chain_of 2000 RpcError,
                       chain_of 2000 (RpcOk [])]) \<and>
   watermarks None [chain_down, chain_of 1000 (RpcOk []), chain_of 2000 RpcError,
                    chain_of 2000 (RpcOk [])]
     = [None, None, Some 1000, Some 1000, Some 1500] \<and>
   map failed (runCycles None [chain_down, chain_of 1000 (RpcOk []), chain_of 2000 RpcError,
                               chain_of 2000 (RpcOk [])])
     = [True, False, True, False]"
proof -
  let ?cs = "[chain_down, chain_of 1000 (RpcOk []), chain_of 2000 RpcError,
              chain_of 2000 (RpcOk [])]"
  from C6_watermark[of None ?cs]
  have "sorted_wrt wm_le (watermarks None ?cs)" by (rule conjunct1)
  moreover have "watermarks None ?cs = [None, None, Some 1000, Some 1000, Some 1500]"
    by (simp add: watermarks_def worker_defs chain_of_def chain_down_def)
  moreover have "map failed (runCycles None ?cs) = [True, False, True, False]"
    by (simp add: worker_defs chain_of_def chain_down_def)
  ultimately show ?thesis by blast
qed

subsection \<open>C7: the window of one cycle\<close>

text \<open>
  C7, as stated, seeds the watermark of a cold start with \<open>head - 100\<close>. The source guards
  the subtraction (\<open>latestBlock > 100n ? latestBlock - 100n : 0n\<close>): with the head at block
  50 the seed is 0 and the first window is \<open>[1, 50]\<close>, not \<open>[-49, 50]\<close>.
\<close>

theorem C7_counterexample:
  "query (pollForEvents None (chain_of 50 (RpcOk []))) = Some (1, 50) \<and>
   query (pollForEvents None (chain_of 50 (RpcOk [])))
     \<noteq> Some ((50 - 100) + 1, min ((50 - 100) + 500) 50)"
  by (simp add: worker_defs chain_of_def)

text \<open>
  C7 (amended). In a cycle whose head query fails nothing is fetched and the watermark
  stays. Otherwise let \<open>wm\<close> be the watermark the cycle works with: the stored one, or on
  a cold start \<open>head - 100\<close> when \<open>head > 100\<close> and \<open>0\<close> when not. When \<open>wm\<close> is at or beyond
  the head no log fetch is issued; when it is below, the one fetch issued is for exactly
  \<open>[wm + 1, min (wm + 500) head]\<close>. Every window fetched starts at \<open>wm + 1\<close>, is not
  empty, spans at most 500 blocks and does not pass the head.
\<close>

theorem C7_window:
  "(case getBlockNumber c of
      RpcError \<Rightarrow> query (pollForEvents w c) = None \<and> after (pollForEvents w c) = w
    | RpcOk head \<Rightarrow>
        (let wm = seeded w head; r = pollForEvents w c
         in (head \<le> wm \<longrightarrow> query r = None \<and> after r = Some wm) \<and>
            (wm < head \<longrightarrow> query r = Some (wm + 1, min (wm + 500) head)) \<and>
            (\<forall>lo hi. query r = Some (lo, hi) \<longrightarrow>
               lo = wm + 1 \<and> lo \<le> hi \<and> hi - lo + 1 \<le> 500 \<and> hi \<le> head)))"
proof (cases rule: poll_cases[of c w])
  case head_error
  then show ?thesis by simp
next
  case (idle head)
  then show ?thesis by (simp add: Let_def)
next
  case (logs_error head)
  then show ?thesis by (simp add: Let_def)
next
  case (advanced head logs)
  then show ?thesis by (simp add: Let_def)
qed

theorem C7_window_witness:
  "query (pollForEvents (Some 700) (chain_of 2000 (RpcOk []))) = Some (701, 1200) \<and>
   query (pollForEvents None (chain_of 2000 (RpcOk []))) = Some (1901, 2000) \<and>
   query (pollForEvents (Some 2000) (chain_of 2000 (RpcOk []))) = None"
proof -
  have g: "getBlockNumber (chain_of 2000 (RpcOk [])) = RpcOk 2000" by (simp add: chain_of_def)
  have a: "seeded (Some 700) 2000 < 2000 \<longrightarrow>
     query (pollForEvents (Some 700) (chain_of 2000 (RpcOk [])))
        = Some (seeded (Some 700) 2000 + 1, min (seeded (Some 700) 2000 + 500) 2000)"
    using C7_window[where w = "Some 700" and c = "chain_of 2000 (RpcOk [])"]
    by (simp only: g rpc.case Let_def) blast
  have b: "seeded None 2000 < 2000 \<longrightarrow>
     query (pollForEvents None (chain_of 2000 (RpcOk [])))
        = Some (seeded None 2000 + 1, min (seeded None 2000 + 500) 2000)"
    using C7_window[where w = None and c = "chain_of 2000 (RpcOk [])"]
    by (simp only: g rpc.case Let_def) blast
  have c: "2000 \<le> seeded (Some 2000) 2000 \<longrightarrow>
     query (pollForEvents (Some 2000) (chain_of 2000 (RpcOk []))) = None"
    using C7_window[where w = "Some 2000" and c = "chain_of 2000 (RpcOk [])"]
    by (simp only: g rpc.case Let_def) blast
  from a b c show ?thesis by (simp add: seeded_def)
qed

subsection \<open>C8: an unreadable profile\<close>

text \<open>
  C8. When the cache gives no player data and Steam's answer, whatever its status, is a
  JSON body whose \<open>playerstats\<close> has \<open>success = false\<close> and a non-empty \<open>message\<close>, the
  request fails with status 404 and that message.
\<close>

theorem C8_profile_unreadable:
  assumes "cookie req = Some steamId" "steamId \<noteq> []" "appIdParam req = Some appId" "appId \<noteq> []"
    and "STEAM_API_KEY w = Some steamApiKey" "steamApiKey \<noteq> []"
    and "getRedisClient w = (redis, w1)"
    and "cachedData redis w1 (playerCacheKey steamId appId) = None"
    and "fetchPlayer w (playerAchievementsUrl steamApiKey steamId appId) = HttpResponse st (Json d)"
    and "playerstats d = Some ps" "\<not> success ps" "message ps = Some m" "m \<noteq> []"
  shows "fst (GET req w) = \<lparr>status = 404, body = Message m\<rparr>"
proof -
  from assms(7) have "fetchPlayer w1 = fetchPlayer w"
    using getRedisClient_fields(1)[of w] by simp
  with assms(9)
  have f: "fetchPlayer w1 (playerAchievementsUrl steamApiKey steamId appId) = HttpResponse st (Json d)"
    by simp
  have rp: "resolvePlayer redis steamApiKey steamId appId w1 =
              fetchPlayerAchievements redis steamApiKey steamId appId w1"
    by (simp add: resolvePlayer_def assms(8))
  from fetchPlayer_unreadable[OF f assms(10-13), of redis]
  have "\<exists>w'. resolveData redis steamApiKey steamId appId w1 = (Return (json 404 (Message m)), w')"
  proof
    assume "\<exists>w'. fetchPlayerAchievements redis steamApiKey steamId appId w1
                  = (Return (json 404 (Message m)), w')"
    then show ?thesis by (auto simp: resolveData_def rp)
  next
    assume "\<exists>w'. fetchPlayerAchievements redis steamApiKey steamId appId w1 = (Continue d, w')"
    then show ?thesis
      using assms(10-13) by (auto simp: resolveData_def rp validatePlayer_def)
  qed
  then show ?thesis
    by (auto simp: GET_valid[OF assms(1-7)] tryBlock_def json_def)
qed

theorem C8_profile_unreadable_witness:
  "fst (GET tf2_request
     (tf2_world\<lparr>fetchPlayer := (\<lambda>url. HttpResponse 403 (Json
        \<lparr>playerstats = Some \<lparr>steamID = None, ps_gameName = None, ps_achievements = None,
           success = False, message = Some ''Profile is not public''\<rparr>\<rparr>))\<rparr>))
   = \<lparr>status = 404, body = Message ''Profile is not public''\<rparr>"
proof -
  let ?ps = "\<lparr>steamID = None, ps_gameName = None, ps_achievements = None,
           success = False, message = Some ''Profile is not public''\<rparr>"
  let ?w = "tf2_world\<lparr>fetchPlayer := (\<lambda>url. HttpResponse 403 (Json \<lparr>playerstats = Some ?ps\<rparr>))\<rparr>"
  have h1: "cookie tf2_request = Some ''7656''" and h2: "''7656'' \<noteq> []"
    and h3: "appIdParam tf2_request = Some ''440''" and h4: "''440'' \<noteq> []"
    and h5: "STEAM_API_KEY ?w = Some ''KEY''" and h6: "''KEY'' \<noteq> []"
    by (simp_all add: tf2_defs)
  have h7: "getRedisClient ?w = (False, snd (getRedisClient ?w))"
    by (simp add: getRedisClient_def tf2_defs)
  have h8: "cachedData False (snd (getRedisClient ?w)) (playerCacheKey ''7656'' ''440'') = None"
    by (simp add: cachedData_def)
  have h9: "fetchPlayer ?w (playerAchievementsUrl ''KEY'' ''7656'' ''440'')
              = HttpResponse 403 (Json \<lparr>playerstats = Some ?ps\<rparr>)"
    by simp
  have h10: "playerstats \<lparr>playerstats = Some ?ps\<rparr> = Some ?ps" and h11: "\<not> success ?ps"
    and h12: "message ?ps = Some ''Profile is not public''" and h13: "''Profile is not public'' \<noteq> []"
    by simp_all
  show ?thesis
    by (rule C8_profile_unreadable[OF h1 h2 h3 h4 h5 h6 h7 h8 h9 h10 h11 h12 h13])
qed

subsection \<open>C9: a schema without the achievement list\<close>

text \<open>
  C9. When the player data are valid and the schema data the handler obtained (from the
  cache or from an \<open>ok\<close> response) lack \<open>game.availableGameStats.achievements\<close>, the
  request fails with status 500 and the message \<open>Failed to parse game schema data.\<close>; no
  achievements are returned.
\<close>

theorem C9_schema_malformed:
  assumes "cookie req = Some steamId" "steamId \<noteq> []" "appIdParam req = Some appId" "appId \<noteq> []"
    and "STEAM_API_KEY w = Some steamApiKey" "steamApiKey \<noteq> []"
    and "getRedisClient w = (redis, w1)"
    and "resolvePlayer redis steamApiKey steamId appId w1 = (Continue pd, w2)"
    and "playerstats pd = Some ps" "success ps"
    and "resolveSchema redis steamApiKey appId w2 = (Continue sd, w3)"
    and "schemaAchievementsOf sd = None"
  shows "GET req w = (\<lparr>status = 500, body = Message ''Failed to parse game schema data.''\<rparr>, w3)"
proof -
  have "resolveData redis steamApiKey steamId appId w1 =
          (Return (json 500 (Message ''Failed to parse game schema data.'')), w3)"
    using assms(8-12) by (simp add: resolveData_def validatePlayer_def split: option.split)
  then show ?thesis
    by (simp add: GET_valid[OF assms(1-7)] tryBlock_def json_def)
qed

theorem C9_schema_malformed_witness:
  "fst (GET tf2_request
     (tf2_world\<lparr>fetchSchema := (\<lambda>url. HttpResponse 200 (Json
        \<lparr>game = Some \<lparr>gameName = ''Team Fortress 2'', gameVersion = ''1'',
           availableGameStats = None\<rparr>\<rparr>))\<rparr>))
   = \<lparr>status = 500, body = Message ''Failed to parse game schema data.''\<rparr>"
proof -
  let ?sd = "\<lparr>game = Some \<lparr>gameName = ''Team Fortress 2'', gameVersion = ''1'',
           availableGameStats = None\<rparr>\<rparr>"
  let ?w = "tf2_world\<lparr>fetchSchema := (\<lambda>url. HttpResponse 200 (Json ?sd))\<rparr>"
  let ?w1 = "snd (getRedisClient ?w)"
  let ?w2 = "snd (resolvePlayer False ''KEY'' ''7656'' ''440'' ?w1)"
  let ?w3 = "snd (resolveSchema False ''KEY'' ''440'' ?w2)"
  let ?ps = "\<lparr>steamID = Some ''7656'', ps_gameName = Some ''Team Fortress 2'',
        ps_achievements = Some
          [\<lparr>apiname = ''TF_PLAY_GAME'', p_achieved = 1, p_unlocktime = 1700000000\<rparr>,
           \<lparr>apiname = ''TF_GET_KILL'', p_achieved = 0, p_unlocktime = 0\<rparr>],
        success = True, message = None\<rparr>"
  have h1: "cookie tf2_request = Some ''7656''" and h2: "''7656'' \<noteq> []"
    and h3: "appIdParam tf2_request = Some ''440''" and h4: "''440'' \<noteq> []"
    and h5: "STEAM_API_KEY ?w = Some ''KEY''" and h6: "''KEY'' \<noteq> []"
    by (simp_all add: tf2_defs)
  have h7: "getRedisClient ?w = (False, ?w1)"
    by (simp add: getRedisClient_def tf2_defs)
  have h8: "resolvePlayer False ''KEY'' ''7656'' ''440'' ?w1 = (Continue tf2_player, ?w2)"
    by (simp add: handler_defs tf2_defs)
  have h9: "playerstats tf2_player = Some ?ps" and h10: "success ?ps"
    by (simp_all add: tf2_defs)
  have h11: "resolveSchema False ''KEY'' ''440'' ?w2 = (Continue ?sd, ?w3)"
    by (simp add: handler_defs tf2_defs)
  have h12: "schemaAchievementsOf ?sd = None"
    by (simp add: schemaAchievementsOf_def)
  from C9_schema_malformed[OF h1 h2 h3 h4 h5 h6 h7 h8 h9 h10 h11 h12]
  show ?thesis by simp
qed

subsection \<open>C10: the cache round trip\<close>

text \<open>
  C10, as stated, has every payload that was fetched and cached read by the next request.
  The global percentages are cached whatever an \<open>ok\<close> response holds. When the body is
  \<open>null\<close>, the text \<open>null\<close> is stored under \<open>globalAch:440\<close> for 3600 seconds; the next
  request, 3599 seconds later, reads it, finds \<open>JSON.parse\<close> of it falsy, and calls the
  upstream again.
\<close>

theorem C10_counterexample:
  "calls (snd (GET tf2_request tf2_rarity_null))
     = [PlayerCall (playerAchievementsUrl ''KEY'' ''7656'' ''440''),
        SchemaCall (schemaUrl ''KEY'' ''440''),
        GlobalCall (globalPercentagesUrl ''440'')] \<and>
   status (fst (GET tf2_request tf2_rarity_null)) = 200 \<and>
   store (snd (GET tf2_request tf2_rarity_null)) ''globalAch:440'' = Some (Unparsable, 3600) \<and>
   calls (snd (GET tf2_request
      ((snd (GET tf2_request tf2_rarity_null))\<lparr>now := 3599, calls := []\<rparr>)))
     = [GlobalCall (globalPercentagesUrl ''440'')]"
  by (simp add: handler_defs tf2_defs cache_defs tf2_rarity_null_def)

text \<open>
  C10 (amended). Take a request on a working cache (the client connects, no \<open>get\<close> and no
  \<open>set\<close> rejects), and any second request, of the same or of another visitor and for the
  same or another game, made on a working cache that holds what the first request left,
  less than 3600 seconds after it. For each of the three datasets: if the first request
  called the upstream and the answer was one the handler caches and can read again (\<open>ok\<close>,
  and a JSON value other than \<open>null\<close>, \<open>false\<close>, \<open>0\<close> and the empty string; with \<open>success\<close>
  for the player data, with the achievement list for the schema), then afterwards the
  payload is stored under the dataset's key, \<open>playerAch:{steamId}:{appId}\<close>,
  \<open>schema:{appId}\<close> or \<open>globalAch:{appId}\<close>, with expiry 3600 seconds after the request; a
  read of the key at the time of the second request gives the payload; a read 3600
  seconds after the first request or later gives nothing; and the second request, if its
  key for the dataset is that key, issues no upstream call for the dataset. The first
  request leaves every other key of the store as it was. A global-percentages body that
  is \<open>null\<close>, \<open>false\<close>, \<open>0\<close> or the empty string is stored under \<open>globalAch:{appId}\<close> for
  3600 seconds as well, and a read of the key gives nothing.
\<close>

theorem C10_cache_round_trip:
  assumes v: "cookie req = Some steamId" "steamId \<noteq> []" "appIdParam req = Some appId" "appId \<noteq> []"
             "STEAM_API_KEY w = Some steamApiKey" "steamApiKey \<noteq> []"
    and h: "redisClient w = Some True \<or> connectOk w" "\<forall>k. \<not> getThrows w k" "\<forall>k. \<not> setThrows w k"
    and c: "calls w = []"
    and w': "w' = snd (GET req w)"
    and v2: "cookie req2 = Some steamId2" "steamId2 \<noteq> []" "appIdParam req2 = Some appId2"
            "appId2 \<noteq> []" "STEAM_API_KEY w2 = Some steamApiKey2" "steamApiKey2 \<noteq> []"
    and h2: "redisClient w2 = Some True \<or> connectOk w2" "\<forall>k. \<not> getThrows w2 k"
    and s2: "store w2 = store w'" "now w2 < now w + 3600" "calls w2 = []"
  shows
    "(\<forall>st d. PlayerCall (playerAchievementsUrl steamApiKey steamId appId) \<in> set (calls w') \<and>
         fetchPlayer w (playerAchievementsUrl steamApiKey steamId appId) = HttpResponse st (Json d) \<and>
         ok st \<and> playerSuccess d \<longrightarrow>
         store w' (''playerAch:'' @ steamId @ '':'' @ appId)
           = Some (Serialized (PlayerPayload d), now w + 3600) \<and>
         cachedData True w2 (''playerAch:'' @ steamId @ '':'' @ appId) = Some (PlayerPayload d) \<and>
         (\<forall>z. store z = store w' \<and> now w + 3600 \<le> now z \<longrightarrow>
              cachedData True z (''playerAch:'' @ steamId @ '':'' @ appId) = None) \<and>
         (''playerAch:'' @ steamId2 @ '':'' @ appId2 = ''playerAch:'' @ steamId @ '':'' @ appId \<longrightarrow>
            (\<forall>u. PlayerCall u \<notin> set (calls (snd (GET req2 w2)))))) \<and>
     (\<forall>st d. SchemaCall (schemaUrl steamApiKey appId) \<in> set (calls w') \<and>
         fetchSchema w (schemaUrl steamApiKey appId) = HttpResponse st (Json d) \<and>
         ok st \<and> schemaAchievementsOf d \<noteq> None \<longrightarrow>
         store w' (''schema:'' @ appId) = Some (Serialized (SchemaPayload d), now w + 3600) \<and>
         cachedData True w2 (''schema:'' @ appId) = Some (SchemaPayload d) \<and>
         (\<forall>z. store z = store w' \<and> now w + 3600 \<le> now z \<longrightarrow>
              cachedData True z (''schema:'' @ appId) = None) \<and>
         (''schema:'' @ appId2 = ''schema:'' @ appId \<longrightarrow>
            (\<forall>u. SchemaCall u \<notin> set (calls (snd (GET req2 w2)))))) \<and>
     (\<forall>st d. GlobalCall (globalPercentagesUrl appId) \<in> set (calls w') \<and>
         fetchGlobal w (globalPercentagesUrl appId) = HttpResponse st (Json d) \<and> ok st \<longrightarrow>
         store w' (''globalAch:'' @ appId) = Some (Serialized (GlobalPayload d), now w + 3600) \<and>
         cachedData True w2 (''globalAch:'' @ appId) = Some (GlobalPayload d) \<and>
         (\<forall>z. store z = store w' \<and> now w + 3600 \<le> now z \<longrightarrow>
              cachedData True z (''globalAch:'' @ appId) = None) \<and>
         (''globalAch:'' @ appId2 = ''globalAch:'' @ appId \<longrightarrow>
            (\<forall>u. GlobalCall u \<notin> set (calls (snd (GET req2 w2)))))) \<and>
     (\<forall>key. key \<noteq> ''playerAch:'' @ steamId @ '':'' @ appId \<and> key \<noteq> ''schema:'' @ appId \<and>
            key \<noteq> ''globalAch:'' @ appId \<longrightarrow> store w' key = store w key) \<and>
     (\<forall>st. GlobalCall (globalPercentagesUrl appId) \<in> set (calls w') \<and>
         fetchGlobal w (globalPercentagesUrl appId) = HttpResponse st JsonFalsy \<and> ok st \<longrightarrow>
         store w' (''globalAch:'' @ appId) = Some (Unparsable, now w + 3600) \<and>
         cachedData True w2 (''globalAch:'' @ appId) = None)"
proof -
  obtain w1 where g: "getRedisClient w = (True, w1)"
    using h(1) by (cases "redisClient w = Some True") (auto simp: getRedisClient_def)
  have w1: "calls w1 = []" "setThrows w1 = setThrows w" "getThrows w1 = getThrows w"
    "fetchPlayer w1 = fetchPlayer w" "fetchSchema w1 = fetchSchema w" "fetchGlobal w1 = fetchGlobal w"
    "now w1 = now w" "STEAM_API_KEY w1 = STEAM_API_KEY w" "store w1 = store w"
    using getRedisClient_fields[of w] g c by simp_all
  have e: "w' = snd (resolveData True steamApiKey steamId appId w1)"
    unfolding w' by (rule GET_world[OF v g])
  obtain w3 where g2: "getRedisClient w2 = (True, w3)"
    using h2(1) by (cases "redisClient w2 = Some True") (auto simp: getRedisClient_def)
  have w3: "calls w3 = []" "getThrows w3 = getThrows w2" "store w3 = store w'" "now w3 = now w2"
    using getRedisClient_fields[of w2] g2 s2 by simp_all
  have e2: "snd (GET req2 w2) = snd (resolveData True steamApiKey2 steamId2 appId2 w3)"
    by (rule GET_world[OF v2 g2])
  have ng: "\<And>key. \<not> getThrows w2 key" using h2(2) by simp
  have rd: "\<And>key. cachedData True w3 key = cachedData True w2 key"
    by (rule cachedData_cong) (simp_all add: w3 s2)
  have player: "store w' (playerCacheKey steamId appId)
           = Some (Serialized (PlayerPayload d), now w + 3600) \<and>
         cachedData True w2 (playerCacheKey steamId appId) = Some (PlayerPayload d) \<and>
         (\<forall>z. store z = store w' \<and> now w + 3600 \<le> now z \<longrightarrow>
              cachedData True z (playerCacheKey steamId appId) = None) \<and>
         (playerCacheKey steamId2 appId2 = playerCacheKey steamId appId \<longrightarrow>
            (\<forall>u. PlayerCall u \<notin> set (calls (snd (GET req2 w2)))))"
    if a: "PlayerCall (playerAchievementsUrl steamApiKey steamId appId) \<in> set (calls w')"
       "fetchPlayer w (playerAchievementsUrl steamApiKey steamId appId) = HttpResponse st (Json d)"
       "ok st" "playerSuccess d" for st d
  proof -
    have s: "store w' (playerCacheKey steamId appId)
               = Some (Serialized (PlayerPayload d), now w + 3600)"
      using resolveData_player_entry[OF a(1)[unfolded e] w1(1) _ _ a(3,4)] h(3) a(2)
      by (simp add: w1 e CACHE_TTL_SECONDS_def)
    have hit: "cachedData True w2 (playerCacheKey steamId appId) = Some (PlayerPayload d)"
      using ng s s2 by (intro cachedData_hit) simp_all
    have ex: "\<forall>z. store z = store w' \<and> now w + 3600 \<le> now z \<longrightarrow>
                 cachedData True z (playerCacheKey steamId appId) = None"
      using s by (auto intro: cachedData_expired)
    have "\<forall>u. PlayerCall u \<notin> set (calls (snd (GET req2 w2)))"
      if k: "playerCacheKey steamId2 appId2 = playerCacheKey steamId appId"
      unfolding e2 using hit
      by (intro allI resolveData_player_hit) (simp_all add: rd k w3)
    with s hit ex show ?thesis by blast
  qed
  have schema: "store w' (schemaCacheKey appId)
           = Some (Serialized (SchemaPayload d), now w + 3600) \<and>
         cachedData True w2 (schemaCacheKey appId) = Some (SchemaPayload d) \<and>
         (\<forall>z. store z = store w' \<and> now w + 3600 \<le> now z \<longrightarrow>
              cachedData True z (schemaCacheKey appId) = None) \<and>
         (schemaCacheKey appId2 = schemaCacheKey appId \<longrightarrow>
            (\<forall>u. SchemaCall u \<notin> set (calls (snd (GET req2 w2)))))"
    if a: "SchemaCall (schemaUrl steamApiKey appId) \<in> set (calls w')"
       "fetchSchema w (schemaUrl steamApiKey appId) = HttpResponse st (Json d)"
       "ok st" "schemaAchievementsOf d \<noteq> None" for st d
  proof -
    have s: "store w' (schemaCacheKey appId)
               = Some (Serialized (SchemaPayload d), now w + 3600)"
      using resolveData_schema_entry[OF a(1)[unfolded e] w1(1) _ _ a(3,4)] h(3) a(2)
      by (simp add: w1 e CACHE_TTL_SECONDS_def)
    have hit: "cachedData True w2 (schemaCacheKey appId) = Some (SchemaPayload d)"
      using ng s s2 by (intro cachedData_hit) simp_all
    have ex: "\<forall>z. store z = store w' \<and> now w + 3600 \<le> now z \<longrightarrow>
                 cachedData True z (schemaCacheKey appId) = None"
      using s by (auto intro: cachedData_expired)
    have "\<forall>u. SchemaCall u \<notin> set (calls (snd (GET req2 w2)))"
      if k: "schemaCacheKey appId2 = schemaCacheKey appId"
      unfolding e2 using hit
      by (intro allI resolveData_schema_hit) (simp_all add: rd k w3)
    with s hit ex show ?thesis by blast
  qed
  have global: "store w' (globalCacheKey appId)
           = Some (Serialized (GlobalPayload d), now w + 3600) \<and>
         cachedData True w2 (globalCacheKey appId) = Some (GlobalPayload d) \<and>
         (\<forall>z. store z = store w' \<and> now w + 3600 \<le> now z \<longrightarrow>
              cachedData True z (globalCacheKey appId) = None) \<and>
         (globalCacheKey appId2 = globalCacheKey appId \<longrightarrow>
            (\<forall>u. GlobalCall u \<notin> set (calls (snd (GET req2 w2)))))"
    if a: "GlobalCall (globalPercentagesUrl appId) \<in> set (calls w')"
       "fetchGlobal w (globalPercentagesUrl appId) = HttpResponse st (Json d)" "ok st" for st d
  proof -
    have s: "store w' (globalCacheKey appId)
               = Some (Serialized (GlobalPayload d), now w + 3600)"
      using resolveData_global_entry[OF a(1)[unfolded e] w1(1) _ _ a(3)] h(3) a(2)
      by (simp add: w1 e CACHE_TTL_SECONDS_def)
    have hit: "cachedData True w2 (globalCacheKey appId) = Some (GlobalPayload d)"
      using ng s s2 by (intro cachedData_hit) simp_all
    have ex: "\<forall>z. store z = store w' \<and> now w + 3600 \<le> now z \<longrightarrow>
                 cachedData True z (globalCacheKey appId) = None"
      using s by (auto intro: cachedData_expired)
    have "\<forall>u. GlobalCall u \<notin> set (calls (snd (GET req2 w2)))"
      if k: "globalCacheKey appId2 = globalCacheKey appId"
      unfolding e2 using hit
      by (intro allI resolveData_global_hit) (simp_all add: rd k w3)
    with s hit ex show ?thesis by blast
  qed
  have other: "store w' key = store w key"
    if "key \<noteq> playerCacheKey steamId appId" "key \<noteq> schemaCacheKey appId"
       "key \<noteq> globalCacheKey appId" for key
    unfolding e using resolveData_store_other[OF that] by (simp add: w1)
  have falsy: "store w' (globalCacheKey appId) = Some (Unparsable, now w + 3600) \<and>
         cachedData True w2 (globalCacheKey appId) = None"
    if a: "GlobalCall (globalPercentagesUrl appId) \<in> set (calls w')"
       "fetchGlobal w (globalPercentagesUrl appId) = HttpResponse st JsonFalsy" "ok st" for st
  proof -
    have s: "store w' (globalCacheKey appId) = Some (Unparsable, now w + 3600)"
      using resolveData_global_entry_falsy[OF a(1)[unfolded e] w1(1) _ _ a(3)] h(3) a(2)
      by (simp add: w1 e CACHE_TTL_SECONDS_def)
    then have "cachedData True w2 (globalCacheKey appId) = None"
      by (intro cachedData_unusable) (simp add: s2)
    with s show ?thesis ..
  qed
  have main:
    "(\<forall>st d. PlayerCall (playerAchievementsUrl steamApiKey steamId appId) \<in> set (calls w') \<and>
         fetchPlayer w (playerAchievementsUrl steamApiKey steamId appId) = HttpResponse st (Json d) \<and>
         ok st \<and> playerSuccess d \<longrightarrow>
         store w' (playerCacheKey steamId appId)
           = Some (Serialized (PlayerPayload d), now w + 3600) \<and>
         cachedData True w2 (playerCacheKey steamId appId) = Some (PlayerPayload d) \<and>
         (\<forall>z. store z = store w' \<and> now w + 3600 \<le> now z \<longrightarrow>
              cachedData True z (playerCacheKey steamId appId) = None) \<and>
         (playerCacheKey steamId2 appId2 = playerCacheKey steamId appId \<longrightarrow>
            (\<forall>u. PlayerCall u \<notin> set (calls (snd (GET req2 w2)))))) \<and>
     (\<forall>st d. SchemaCall (schemaUrl steamApiKey appId) \<in> set (calls w') \<and>
         fetchSchema w (schemaUrl steamApiKey appId) = HttpResponse st (Json d) \<and>
         ok st \<and> schemaAchievementsOf d \<noteq> None \<longrightarrow>
         store w' (schemaCacheKey appId) = Some (Serialized (SchemaPayload d), now w + 3600) \<and>
         cachedData True w2 (schemaCacheKey appId) = Some (SchemaPayload d) \<and>
         (\<forall>z. store z = store w' \<and> now w + 3600 \<le> now z \<longrightarrow>
              cachedData True z (schemaCacheKey appId) = None) \<and>
         (schemaCacheKey appId2 = schemaCacheKey appId \<longrightarrow>
            (\<forall>u. SchemaCall u \<notin> set (calls (snd (GET req2 w2)))))) \<and>
     (\<forall>st d. GlobalCall (globalPercentagesUrl appId) \<in> set (calls w') \<and>
         fetchGlobal w (globalPercentagesUrl appId) = HttpResponse st (Json d) \<and> ok st \<longrightarrow>
         store w' (globalCacheKey appId) = Some (Serialized (GlobalPayload d), now w + 3600) \<and>
         cachedData True w2 (globalCacheKey appId) = Some (GlobalPayload d) \<and>
         (\<forall>z. store z = store w' \<and> now w + 3600 \<le> now z \<longrightarrow>
              cachedData True z (globalCacheKey appId) = None) \<and>
         (globalCacheKey appId2 = globalCacheKey appId \<longrightarrow>
            (\<forall>u. GlobalCall u \<notin> set (calls (snd (GET req2 w2)))))) \<and>
     (\<forall>key. key \<noteq> playerCacheKey steamId appId \<and> key \<noteq> schemaCacheKey appId \<and>
            key \<noteq> globalCacheKey appId \<longrightarrow> store w' key = store w key) \<and>
     (\<forall>st. GlobalCall (globalPercentagesUrl appId) \<in> set (calls w') \<and>
         fetchGlobal w (globalPercentagesUrl appId) = HttpResponse st JsonFalsy \<and> ok st \<longrightarrow>
         store w' (globalCacheKey appId) = Some (Unparsable, now w + 3600) \<and>
         cachedData True w2 (globalCacheKey appId) = None)"
    using player schema global other falsy by blast
  then show ?thesis
    unfolding playerCacheKey_def schemaCacheKey_def globalCacheKey_def .
qed

theorem C10_cache_round_trip_witness:
  "calls (snd (GET tf2_request (tf2_world\<lparr>connectOk := True\<rparr>)))
     = [PlayerCall (playerAchievementsUrl ''KEY'' ''7656'' ''440''),
        SchemaCall (schemaUrl ''KEY'' ''440''),
        GlobalCall (globalPercentagesUrl ''440'')] \<and>
   store (snd (GET tf2_request (tf2_world\<lparr>connectOk := True\<rparr>))) ''schema:440''
     = Some (Serialized (SchemaPayload tf2_schema), 3600) \<and>
   calls (snd (GET tf2_other_request
      ((snd (GET tf2_request (tf2_world\<lparr>connectOk := True\<rparr>)))\<lparr>now := 3599, calls := []\<rparr>)))
     = [PlayerCall (playerAchievementsUrl ''KEY'' ''9999'' ''440'')] \<and>
   calls (snd (GET tf2_request
      ((snd (GET tf2_request (tf2_world\<lparr>connectOk := True\<rparr>)))\<lparr>now := 3599, calls := []\<rparr>))) = []"
proof -
  let ?w = "tf2_world\<lparr>connectOk := True\<rparr>"
  let ?w' = "snd (GET tf2_request ?w)"
  let ?w2 = "?w'\<lparr>now := 3599, calls := []\<rparr>"
  have h1: "cookie tf2_request = Some ''7656''" and h2: "''7656'' \<noteq> []"
    and h3: "appIdParam tf2_request = Some ''440''" and h4: "''440'' \<noteq> []"
    and h5: "STEAM_API_KEY ?w = Some ''KEY''" and h6: "''KEY'' \<noteq> []"
    and h7: "redisClient ?w = Some True \<or> connectOk ?w"
    and h8: "\<forall>k. \<not> getThrows ?w k" and h9: "\<forall>k. \<not> setThrows ?w k"
    and h10: "calls ?w = []"
    and o1: "cookie tf2_other_request = Some ''9999''" and o2: "''9999'' \<noteq> []"
    and o3: "appIdParam tf2_other_request = Some ''440''"
    by (simp_all add: tf2_defs tf2_other_request_def)
  have first: "calls ?w' = [PlayerCall (playerAchievementsUrl ''KEY'' ''7656'' ''440''),
        SchemaCall (schemaUrl ''KEY'' ''440''), GlobalCall (globalPercentagesUrl ''440'')]"
    by (simp add: handler_defs tf2_defs cache_defs)
  have k9: "store ?w2 = store ?w'" and k11: "calls ?w2 = []" by simp_all
  have k5: "STEAM_API_KEY ?w2 = Some ''KEY''"
    and k7: "redisClient ?w2 = Some True \<or> connectOk ?w2"
    and k8: "\<forall>k. \<not> getThrows ?w2 k"
    and k10: "now ?w2 < now ?w + 3600" 
    by (simp_all add: handler_defs tf2_defs cache_defs)
  note th = C10_cache_round_trip[OF h1 h2 h3 h4 h5 h6 h7 h8 h9 h10 refl o1 o2 o3 h4 k5 h6 k7 k8
              k9 k10 k11]
  have fs: "fetchSchema ?w (schemaUrl ''KEY'' ''440'') = HttpResponse 200 (Json tf2_schema)"
    "ok 200" "schemaAchievementsOf tf2_schema \<noteq> None"
    "SchemaCall (schemaUrl ''KEY'' ''440'') \<in> set (calls ?w')"
    unfolding first by (simp_all add: tf2_defs ok_def schemaAchievementsOf_def)
  note sch = th[THEN conjunct2, THEN conjunct1, rule_format,
                OF conjI[OF fs(4) conjI[OF fs(1) conjI[OF fs(2) fs(3)]]]]
  note sc = sch[THEN conjunct1]
  note no = sch[THEN conjunct2, THEN conjunct2, THEN conjunct2, rule_format, OF refl]
  have n: "now ?w = 0" by (simp add: tf2_defs)
  have other: "calls (snd (GET tf2_other_request ?w2))
                 = [PlayerCall (playerAchievementsUrl ''KEY'' ''9999'' ''440'')]"
    by (simp add: handler_defs tf2_defs cache_defs tf2_other_request_def)
  have same: "calls (snd (GET tf2_request ?w2)) = []"
    by (simp add: handler_defs tf2_defs cache_defs)
  have sc': "store ?w' ''schema:440'' = Some (Serialized (SchemaPayload tf2_schema), 3600)"
    using sc by (simp only: n append.simps add_0) 
  from sc' no first other same show ?thesis by (simp only: simp_thms)
qed

end
